theory Spec2Isabelle
  imports Complex_Main
begin

section \<open>Stretch: the line iterators of \<open>gcodeutils/stretch/stretch.py\<close>\<close>

text \<open>
  The module is Python 2.  Its floats are modelled as \<^typ>\<open>real\<close> and its complex numbers as
  \<^typ>\<open>complex\<close>: arithmetic is exact, comparisons and divisions are the mathematical ones, and a
  division by zero is the \<open>ZeroDivisionError\<close> branch of the model.  Python integers are
  \<^typ>\<open>int\<close>.  Every exception the code can raise is a value of \<open>error\<close>.
\<close>

datatype error = StopIteration | IndexError | ValueError | ZeroDivisionError | AttributeError

text \<open>
  Modelled from the spec: the class \<open>Line\<close> of \<open>gcodeutils/gcoder.py\<close> is not among the sources.
  The spec's data model gives a line its raw text, its command token and an optional feed rate;
  these are the only attributes \<open>stretch.py\<close> reads (\<open>line.raw\<close>, \<open>line.command\<close>, \<open>line.f\<close>).
  A layer is the list of its lines.
\<close>

record Line =
  raw :: string
  command :: string
  feed :: "real option"

text \<open>Python's \<open>xs[i]\<close>: a negative index counts from the end, out of range raises.\<close>

definition getitem :: "'a list \<Rightarrow> int \<Rightarrow> error + 'a" where
  "getitem xs i =
     (let n = int (length xs); j = (if i < 0 then i + n else i)
      in if 0 \<le> j \<and> j < n then Inr (xs ! nat j) else Inl IndexError)"

datatype iterator_class = LineIteratorBackward | LineIteratorForward

text \<open>
  The attributes set by \<open>LineIteratorBackward.__init__\<close> (inherited by the forward class);
  \<open>firstLineIndex\<close> is \<open>None\<close> until the first line is visited.
\<close>

record LineIterator =
  iterator_class :: iterator_class
  firstLineIndex :: "int option"
  isLoop :: bool
  lineIndex :: int
  lines :: "Line list"

definition LineIterator_init :: "iterator_class \<Rightarrow> bool \<Rightarrow> int \<Rightarrow> Line list \<Rightarrow> LineIterator" where
  "LineIterator_init k isLoop0 lineIndex0 lines0 =
     \<lparr>iterator_class = k, firstLineIndex = None, isLoop = isLoop0,
      lineIndex = lineIndex0, lines = lines0\<rparr>"

subsection \<open>The backward iterator's scans\<close>

text \<open>
  \<open>for lineIndex in xrange(self.lineIndex + 1, len(self.lines))\<close>: the first \<open>M103\<close> at or
  after \<open>i\<close> gives \<open>lineIndex - 2\<close>; none raises \<open>StopIteration\<close>.
\<close>

function getIndexBeforeNextDeactivate_from :: "Line list \<Rightarrow> int \<Rightarrow> error + int" where
  "getIndexBeforeNextDeactivate_from ls i =
     (if i < int (length ls) then
        (case getitem ls i of
           Inl e \<Rightarrow> Inl e
         | Inr l \<Rightarrow>
             if command l = ''M103'' then Inr (i - 2)
             else getIndexBeforeNextDeactivate_from ls (i + 1))
      else Inl StopIteration)"
  by pat_completeness auto
termination
  by (relation "measure (\<lambda>(ls, i). nat (int (length ls) - i))") auto

definition getIndexBeforeNextDeactivate :: "LineIterator \<Rightarrow> error + int" where
  "getIndexBeforeNextDeactivate c = getIndexBeforeNextDeactivate_from (lines c) (lineIndex c + 1)"

text \<open>
  \<open>isBeforeExtrusion\<close>: scanning forward from the line after the current one, counting the
  \<open>G1\<close> lines seen; an \<open>M101\<close> answers whether a linear move came before it, an \<open>M103\<close> or
  the end of the layer answers \<open>False\<close>.
\<close>

function isBeforeExtrusion_from :: "Line list \<Rightarrow> int \<Rightarrow> nat \<Rightarrow> error + bool" where
  "isBeforeExtrusion_from ls i linearMoves =
     (if i < int (length ls) then
        (case getitem ls i of
           Inl e \<Rightarrow> Inl e
         | Inr l \<Rightarrow>
             (let linearMoves' = (if command l = ''G1'' then linearMoves + 1 else linearMoves)
              in if command l = ''M101'' then Inr (linearMoves' > 0)
                 else if command l = ''M103'' then Inr False
                 else isBeforeExtrusion_from ls (i + 1) linearMoves'))
      else Inr False)"
  by pat_completeness auto
termination
  by (relation "measure (\<lambda>(ls, i, n). nat (int (length ls) - i))") auto

definition isBeforeExtrusion :: "LineIterator \<Rightarrow> error + bool" where
  "isBeforeExtrusion c = isBeforeExtrusion_from (lines c) (lineIndex c + 1) 0"

subsection \<open>The forward iterator's scan\<close>

text \<open>
  \<open>for lineIndex in xrange(self.lineIndex - 1, 0, - 1)\<close>: downward, index 0 excluded; the
  first \<open>M101\<close> gives \<open>lineIndex + 1\<close>; none raises \<open>StopIteration\<close>.
\<close>

function getIndexJustAfterActivate_from :: "Line list \<Rightarrow> int \<Rightarrow> error + int" where
  "getIndexJustAfterActivate_from ls i =
     (if i > 0 then
        (case getitem ls i of
           Inl e \<Rightarrow> Inl e
         | Inr l \<Rightarrow>
             if command l = ''M101'' then Inr (i + 1)
             else getIndexJustAfterActivate_from ls (i - 1))
      else Inl StopIteration)"
  by pat_completeness auto
termination
  by (relation "measure (\<lambda>(ls, i). nat i)") auto

definition getIndexJustAfterActivate :: "LineIterator \<Rightarrow> error + int" where
  "getIndexJustAfterActivate c = getIndexJustAfterActivate_from (lines c) (lineIndex c - 1)"

subsection \<open>\<open>getNext\<close>\<close>

text \<open>
  A call returns the raw text of a line (\<open>Inr\<close>) or raises (\<open>Inl\<close>), and leaves the iterator
  as the call mutated it.  The \<open>while\<close> loops need not end (an \<open>M103\<close> may wrap to an index
  from which the same \<open>M103\<close> is reached again with no \<open>G1\<close> between), so a call that never
  returns is the value \<open>None\<close>.
\<close>

partial_function (option) LineIteratorForward_getNext ::
  "LineIterator \<Rightarrow> ((error + string) \<times> LineIterator) option" where
  "LineIteratorForward_getNext c =
     (if lineIndex c < int (length (lines c)) then
        if firstLineIndex c = Some (lineIndex c) then Some (Inl StopIteration, c)
        else
          (let c1 = (if firstLineIndex c = None then c\<lparr>firstLineIndex := Some (lineIndex c)\<rparr> else c)
           in case getitem (lines c1) (lineIndex c1) of
                Inl e \<Rightarrow> Some (Inl e, c1)
              | Inr line \<Rightarrow>
                  (case (if command line = ''M103''
                         then (if isLoop c1 then getIndexJustAfterActivate c1 else Inl StopIteration)
                         else Inr (lineIndex c1 + 1)) of
                     Inl e \<Rightarrow> Some (Inl e, c1)
                   | Inr nextLineIndex \<Rightarrow>
                       if command line = ''G1''
                       then Some (Inr (raw line), c1\<lparr>lineIndex := nextLineIndex\<rparr>)
                       else LineIteratorForward_getNext (c1\<lparr>lineIndex := nextLineIndex\<rparr>)))
      else Some (Inl StopIteration, c))"

text \<open>The \<open>while self.lineIndex >= 0\<close> loop of the backward \<open>getNext\<close> and the code after it.\<close>

partial_function (option) LineIteratorBackward_getNext_loop ::
  "LineIterator \<Rightarrow> ((error + string) \<times> LineIterator) option" where
  "LineIteratorBackward_getNext_loop c =
     (if lineIndex c \<ge> 0 then
        if firstLineIndex c = Some (lineIndex c) then Some (Inl StopIteration, c)
        else
          (let c1 = (if firstLineIndex c = None then c\<lparr>firstLineIndex := Some (lineIndex c)\<rparr> else c)
           in case getitem (lines c1) (lineIndex c1) of
                Inl e \<Rightarrow> Some (Inl e, c1)
              | Inr line \<Rightarrow>
                  (case (if command line = ''M103''
                         then (if isLoop c1 then getIndexBeforeNextDeactivate c1 else Inl StopIteration)
                         else Inr (lineIndex c1 - 1)) of
                     Inl e \<Rightarrow> Some (Inl e, c1)
                   | Inr nextLineIndex \<Rightarrow>
                       if command line = ''G1'' then
                         (case isBeforeExtrusion c1 of
                            Inl e \<Rightarrow> Some (Inl e, c1)
                          | Inr before \<Rightarrow>
                              if before then
                                if isLoop c1 then
                                  (case getIndexBeforeNextDeactivate c1 of
                                     Inl e \<Rightarrow> Some (Inl e, c1)
                                   | Inr nextLineIndex' \<Rightarrow>
                                       LineIteratorBackward_getNext_loop (c1\<lparr>lineIndex := nextLineIndex'\<rparr>))
                                else Some (Inl StopIteration, c1)
                              else Some (Inr (raw line), c1\<lparr>lineIndex := nextLineIndex\<rparr>))
                       else LineIteratorBackward_getNext_loop (c1\<lparr>lineIndex := nextLineIndex\<rparr>)))
      else if isLoop c then
        (case getIndexBeforeNextDeactivate c of
           Inl e \<Rightarrow> Some (Inl e, c)
         | Inr nextLineIndex \<Rightarrow> Some (Inl StopIteration, c))
      else Some (Inl StopIteration, c))"

definition LineIteratorBackward_getNext ::
  "LineIterator \<Rightarrow> ((error + string) \<times> LineIterator) option" where
  "LineIteratorBackward_getNext c =
     (if lineIndex c < 1 \<and> isLoop c then
        (case getIndexBeforeNextDeactivate c of
           Inl e \<Rightarrow> Some (Inl e, c)
         | Inr i \<Rightarrow> LineIteratorBackward_getNext_loop (c\<lparr>lineIndex := i\<rparr>))
      else LineIteratorBackward_getNext_loop c)"

text \<open>Method dispatch on the iterator's class.\<close>

definition getNext :: "LineIterator \<Rightarrow> ((error + string) \<times> LineIterator) option" where
  "getNext c =
     (case iterator_class c of
        LineIteratorForward \<Rightarrow> LineIteratorForward_getNext c
      | LineIteratorBackward \<Rightarrow> LineIteratorBackward_getNext c)"


section \<open>Stretch: the filter\<close>

subsection \<open>Splitting a line into words\<close>

text \<open>The whitespace of \<open>str.split()\<close> on a Python 2 byte string.\<close>

definition isspace :: "char \<Rightarrow> bool" where
  "isspace c = (c \<in> set [CHR 0x09, CHR 0x0A, CHR 0x0B, CHR 0x0C, CHR 0x0D, CHR '' ''])"

text \<open>\<open>s.split()\<close>: the maximal runs of non-whitespace, in order; \<open>w\<close> is the run being read.\<close>

fun str_split_from :: "string \<Rightarrow> string \<Rightarrow> string list" where
  "str_split_from w [] = (if w = [] then [] else [w])"
| "str_split_from w (c # cs) =
     (if isspace c then (if w = [] then str_split_from [] cs else w # str_split_from [] cs)
      else str_split_from (w @ [c]) cs)"

definition str_split :: "string \<Rightarrow> string list" where
  "str_split s = str_split_from [] s"

text \<open>\<open>s.find(c)\<close>: the index of the first occurrence, or \<open>-1\<close>.\<close>

definition str_find :: "string \<Rightarrow> char \<Rightarrow> int" where
  "str_find s c = (if c \<in> set s then int (length (takeWhile (\<lambda>x. x \<noteq> c) s)) else - 1)"

definition startswith :: "string \<Rightarrow> string \<Rightarrow> bool" where
  "startswith s p = (take (length p) s = p)"

definition getSplitLineBeforeBracketSemicolon :: "string \<Rightarrow> string list" where
  "getSplitLineBeforeBracketSemicolon line =
     (let line1 = (if CHR '';'' \<in> set line then take (nat (str_find line (CHR '';''))) line else line);
          bracketIndex = str_find line1 (CHR ''('')
      in if bracketIndex > 0 then str_split (take (nat bracketIndex) line1) else str_split line1)"

text \<open>
  \<open>for wordIndex in xrange(1, len(splitLine))\<close>, over the words from the second on;
  \<open>word[0]\<close> raises on an empty word.
\<close>

fun getIndexOfStartingWithSecond_from :: "char \<Rightarrow> string list \<Rightarrow> int \<Rightarrow> error + int" where
  "getIndexOfStartingWithSecond_from letter [] wordIndex = Inr (- 1)"
| "getIndexOfStartingWithSecond_from letter (word # rest) wordIndex =
     (case word of
        [] \<Rightarrow> Inl IndexError
      | firstLetter # _ \<Rightarrow>
          if firstLetter = letter then Inr wordIndex
          else getIndexOfStartingWithSecond_from letter rest (wordIndex + 1))"

definition getIndexOfStartingWithSecond :: "char \<Rightarrow> string list \<Rightarrow> error + int" where
  "getIndexOfStartingWithSecond letter splitLine =
     getIndexOfStartingWithSecond_from letter (drop 1 splitLine) 1"

text \<open>
  The builtin \<open>float\<close> is the parameter \<open>float_of\<close> of the model: \<open>None\<close> is its
  \<open>ValueError\<close>, \<open>Some r\<close> the number read.
\<close>

type_synonym float_builtin = "string \<Rightarrow> real option"

definition getDoubleFromCharacterSplitLine ::
  "float_builtin \<Rightarrow> char \<Rightarrow> string list \<Rightarrow> error + real option" where
  "getDoubleFromCharacterSplitLine float_of character splitLine =
     (case getIndexOfStartingWithSecond character splitLine of
        Inl e \<Rightarrow> Inl e
      | Inr indexOfCharacter \<Rightarrow>
          if indexOfCharacter < 0 then Inr None
          else (case getitem splitLine indexOfCharacter of
                  Inl e \<Rightarrow> Inl e
                | Inr word \<Rightarrow> Inr (float_of (drop 1 word))))"

definition getDoubleFromCharacterSplitLineValue ::
  "float_builtin \<Rightarrow> char \<Rightarrow> string list \<Rightarrow> real \<Rightarrow> error + real" where
  "getDoubleFromCharacterSplitLineValue float_of character splitLine val =
     (case getDoubleFromCharacterSplitLine float_of character splitLine of
        Inl e \<Rightarrow> Inl e
      | Inr None \<Rightarrow> Inr val
      | Inr (Some splitLineFloat) \<Rightarrow> Inr splitLineFloat)"

text \<open>
  Modelled from the spec: the class \<open>Vector3\<close> of \<open>stretch/vector3.py\<close> is not among the
  sources.  It is a point with the three coordinates of a move; \<open>Vector3()\<close> is the origin and
  \<open>dropAxis()\<close> is the 2-D point \<open>(x, y)\<close> as a complex number.
\<close>

datatype Vector3 = Vector3 (x_of: real) (y_of: real) (z_of: real)

definition dropAxis :: "Vector3 \<Rightarrow> complex" where
  "dropAxis v = Complex (x_of v) (y_of v)"

text \<open>The third argument of the source, \<open>line\<close>, is not read by it.\<close>

definition getLocationFromSplitLine ::
  "float_builtin \<Rightarrow> Vector3 option \<Rightarrow> string list \<Rightarrow> error + Vector3" where
  "getLocationFromSplitLine float_of oldLocation splitLine =
     (let oldLocation1 = (case oldLocation of None \<Rightarrow> Vector3 0 0 0 | Some v \<Rightarrow> v)
      in case getDoubleFromCharacterSplitLineValue float_of (CHR ''X'') splitLine (x_of oldLocation1) of
           Inl e \<Rightarrow> Inl e
         | Inr x \<Rightarrow>
             (case getDoubleFromCharacterSplitLineValue float_of (CHR ''Y'') splitLine (y_of oldLocation1) of
                Inl e \<Rightarrow> Inl e
              | Inr y \<Rightarrow>
                  (case getDoubleFromCharacterSplitLineValue float_of (CHR ''Z'') splitLine (z_of oldLocation1) of
                     Inl e \<Rightarrow> Inl e
                   | Inr z \<Rightarrow> Inr (Vector3 x y z))))"

definition getDotProduct :: "complex \<Rightarrow> complex \<Rightarrow> real" where
  "getDotProduct firstComplex secondComplex =
     Re firstComplex * Re secondComplex + Im firstComplex * Im secondComplex"

subsection \<open>Settings and state\<close>

record StretchRepository =
  activateStretch :: bool
  crossLimitDistanceOverEdgeWidth :: real
  loopStretchOverEdgeWidth :: real
  pathStretchOverEdgeWidth :: real
  edgeInsideStretchOverEdgeWidth :: real
  edgeOutsideStretchOverEdgeWidth :: real
  stretchFromDistanceOverEdgeWidth :: real

definition StretchRepository_init :: StretchRepository where
  "StretchRepository_init =
     \<lparr>activateStretch = True,
      crossLimitDistanceOverEdgeWidth = 5,
      loopStretchOverEdgeWidth = 11 / 100,
      pathStretchOverEdgeWidth = 0,
      edgeInsideStretchOverEdgeWidth = 32 / 100,
      edgeOutsideStretchOverEdgeWidth = 1 / 10,
      stretchFromDistanceOverEdgeWidth = 2\<rparr>"

text \<open>
  Modelled from the spec: the class \<open>DistanceFeedRate\<close> of \<open>stretch/distanceFeedRate.py\<close> is
  not among the sources.  Output emission accumulates the emitted lines in document order; a line
  is the text of an input line passed through, or the linear move that
  \<open>getLinearGcodeMovementWithFeedRate\<close> writes for a feed rate, a 2-D point and a height.  How
  that move is rendered as text (its number of decimal places, which \<open>parseSplitLine\<close> reads from
  the input) is not modelled: the move is kept as its three arguments.
\<close>

datatype gcode_line = Text string | LinearGcodeMovementWithFeedRate real complex real

record DistanceFeedRate =
  output_lines :: "gcode_line list"

definition addLine :: "DistanceFeedRate \<Rightarrow> gcode_line \<Rightarrow> DistanceFeedRate" where
  "addLine d line = d\<lparr>output_lines := output_lines d @ [line]\<rparr>"

definition parseSplitLine :: "DistanceFeedRate \<Rightarrow> string \<Rightarrow> DistanceFeedRate" where
  "parseSplitLine d line = d"

definition getLinearGcodeMovementWithFeedRate :: "real \<Rightarrow> complex \<Rightarrow> real \<Rightarrow> gcode_line" where
  "getLinearGcodeMovementWithFeedRate feedRateMinute point z =
     LinearGcodeMovementWithFeedRate feedRateMinute point z"

text \<open>
  The attributes of a \<open>StretchFilter\<close>.  Those that \<open>__init__\<close> does not assign exist only once
  \<open>parse_initialisation_line\<close> has met the edge-width comment: they are \<open>None\<close> before, and
  reading one then is the \<open>AttributeError\<close> of Python.  The loop flag \<open>self.isLoop\<close> is
  \<open>filter_isLoop\<close> (the iterators have an \<open>isLoop\<close> of their own); \<open>current_layer\<close> is assigned
  by \<open>filter\<close> before any method reads it.
\<close>

record StretchFilter =
  distanceFeedRate :: DistanceFeedRate
  edgeWidth :: real
  extruderActive :: bool
  feedRateMinute :: real
  filter_isLoop :: bool
  oldLocation :: "Vector3 option"
  current_layer :: "Line list"
  line_number_in_layer :: nat
  stretchRepository :: StretchRepository
  thread_maximum_absolute_stretch :: real
  crossLimitDistance :: "real option"
  loopMaximumAbsoluteStretch :: "real option"
  pathAbsoluteStretch :: "real option"
  edgeInsideAbsoluteStretch :: "real option"
  edgeOutsideAbsoluteStretch :: "real option"
  stretchFromDistance :: "real option"
  crossLimitDistanceFraction :: "real option"
  crossLimitDistanceRemainder :: "real option"

text \<open>
  \<open>StretchFilter.__init__\<close>.  The source stores a fresh \<open>StretchRepository()\<close>; the settings
  are a parameter here, so that a configured ratio can be given, and \<open>StretchRepository_init\<close>
  is the source's value.
\<close>

definition StretchFilter_init :: "StretchRepository \<Rightarrow> StretchFilter" where
  "StretchFilter_init repository =
     \<lparr>distanceFeedRate = \<lparr>output_lines = []\<rparr>,
      edgeWidth = 4 / 10,
      extruderActive = False,
      feedRateMinute = 959,
      filter_isLoop = False,
      oldLocation = None,
      current_layer = [],
      line_number_in_layer = 0,
      stretchRepository = repository,
      thread_maximum_absolute_stretch = 0,
      crossLimitDistance = None,
      loopMaximumAbsoluteStretch = None,
      pathAbsoluteStretch = None,
      edgeInsideAbsoluteStretch = None,
      edgeOutsideAbsoluteStretch = None,
      stretchFromDistance = None,
      crossLimitDistanceFraction = None,
      crossLimitDistanceRemainder = None\<rparr>"

subsection \<open>The stretch of one location\<close>

text \<open>
  \<open>getCrossLimitedStretch\<close>.  Only \<open>StopIteration\<close> is caught; dividing by a zero length or
  remainder raises.
\<close>

definition getCrossLimitedStretch ::
  "float_builtin \<Rightarrow> StretchFilter \<Rightarrow> complex \<Rightarrow> LineIterator \<Rightarrow> complex \<Rightarrow> (error + complex) option" where
  "getCrossLimitedStretch float_of self crossLimitedStretch crossLineIterator locationComplex =
     (case getNext crossLineIterator of
        None \<Rightarrow> None
      | Some (Inl e, _) \<Rightarrow>
          if e = StopIteration then Some (Inr crossLimitedStretch) else Some (Inl e)
      | Some (Inr line, _) \<Rightarrow> Some
          (let splitLine = getSplitLineBeforeBracketSemicolon line
           in case getLocationFromSplitLine float_of (oldLocation self) splitLine of
                Inl e \<Rightarrow> Inl e
              | Inr point \<Rightarrow>
                 (let pointComplex = dropAxis point;
                      pointMinusLocation = locationComplex - pointComplex;
                      pointMinusLocationLength = cmod pointMinusLocation
                  in case crossLimitDistanceFraction self of
                       None \<Rightarrow> Inl AttributeError
                     | Some fraction \<Rightarrow>
                        if pointMinusLocationLength \<le> fraction then Inr crossLimitedStretch
                        else if pointMinusLocationLength = 0 then Inl ZeroDivisionError
                        else
                          (let parallelNormal = pointMinusLocation / of_real pointMinusLocationLength;
                               parallelStretch =
                                 of_real (getDotProduct parallelNormal crossLimitedStretch) * parallelNormal
                           in case crossLimitDistance self of
                                None \<Rightarrow> Inl AttributeError
                              | Some distance \<Rightarrow>
                                 if pointMinusLocationLength > distance then Inr parallelStretch
                                 else
                                   (let crossNormal = Complex (Im parallelNormal) (- Re parallelNormal);
                                        crossStretch =
                                          of_real (getDotProduct crossNormal crossLimitedStretch) * crossNormal
                                    in case crossLimitDistanceRemainder self of
                                         None \<Rightarrow> Inl AttributeError
                                       | Some remainder \<Rightarrow>
                                          if remainder = 0 then Inl ZeroDivisionError
                                          else
                                            (let crossPortion =
                                                   (distance - pointMinusLocationLength) / remainder
                                             in Inr (parallelStretch + crossStretch * of_real crossPortion)))))))"

text \<open>
  \<open>getRelativeStretch\<close>: the \<open>while 1\<close> loop with its four variables.  It ends when the
  iterator is exhausted or the walked length reaches \<open>stretchFromDistance\<close>; an iterator that
  goes round a loop of zero length for ever never ends it.
\<close>

partial_function (option) getRelativeStretch_loop ::
  "float_builtin \<Rightarrow> StretchFilter \<Rightarrow> complex \<Rightarrow> LineIterator \<Rightarrow>
   complex \<Rightarrow> real \<Rightarrow> complex \<Rightarrow> real \<Rightarrow> (error + complex) option" where
  "getRelativeStretch_loop float_of self locationComplex lineIterator
       lastLocationComplex oldTotalLength pointComplex totalLength =
     (case getNext lineIterator of
        None \<Rightarrow> None
      | Some (Inl e, _) \<Rightarrow>
          if e = StopIteration then
            (let locationMinusPoint = locationComplex - pointComplex;
                 locationMinusPointLength = cmod locationMinusPoint
             in if locationMinusPointLength > 0
                then Some (Inr (locationMinusPoint / of_real locationMinusPointLength))
                else Some (Inr 0))
          else Some (Inl e)
      | Some (Inr line, lineIterator') \<Rightarrow>
          (case getSplitLineBeforeBracketSemicolon line of
             [] \<Rightarrow> Some (Inl IndexError)
           | firstWord # _ \<Rightarrow>
              (case getLocationFromSplitLine float_of (oldLocation self)
                      (getSplitLineBeforeBracketSemicolon line) of
                 Inl e \<Rightarrow> Some (Inl e)
               | Inr point \<Rightarrow>
                  (let pointComplex' = dropAxis point;
                       locationMinusPoint = lastLocationComplex - pointComplex';
                       locationMinusPointLength = cmod locationMinusPoint;
                       totalLength' = totalLength + locationMinusPointLength
                   in case stretchFromDistance self of
                        None \<Rightarrow> Some (Inl AttributeError)
                      | Some fromDistance \<Rightarrow>
                          if totalLength' \<ge> fromDistance then
                            if locationMinusPointLength = 0 then Some (Inl ZeroDivisionError)
                            else
                              (let distanceFromRatio =
                                     (fromDistance - oldTotalLength) / locationMinusPointLength;
                                   totalPoint = of_real distanceFromRatio * pointComplex'
                                     + of_real (1 - distanceFromRatio) * lastLocationComplex;
                                   locationMinusTotalPoint = locationComplex - totalPoint
                               in if fromDistance = 0 then Some (Inl ZeroDivisionError)
                                  else Some (Inr (locationMinusTotalPoint / of_real fromDistance)))
                          else getRelativeStretch_loop float_of self locationComplex lineIterator'
                                 pointComplex' totalLength' pointComplex' totalLength'))))"

definition getRelativeStretch ::
  "float_builtin \<Rightarrow> StretchFilter \<Rightarrow> complex \<Rightarrow> LineIterator \<Rightarrow> (error + complex) option" where
  "getRelativeStretch float_of self locationComplex lineIterator =
     getRelativeStretch_loop float_of self locationComplex lineIterator
       locationComplex 0 locationComplex 0"

definition getStretchedLineFromIndexLocation ::
  "float_builtin \<Rightarrow> StretchFilter \<Rightarrow> int \<Rightarrow> int \<Rightarrow> Vector3 \<Rightarrow> (error + gcode_line) option" where
  "getStretchedLineFromIndexLocation float_of self indexPreviousStart indexNextStart location =
     (let crossIteratorForward =
            LineIterator_init LineIteratorForward (filter_isLoop self) indexNextStart (current_layer self);
          crossIteratorBackward =
            LineIterator_init LineIteratorBackward (filter_isLoop self) indexPreviousStart (current_layer self);
          iteratorForward =
            LineIterator_init LineIteratorForward (filter_isLoop self) indexNextStart (current_layer self);
          iteratorBackward =
            LineIterator_init LineIteratorBackward (filter_isLoop self) indexPreviousStart (current_layer self);
          locationComplex = dropAxis location
      in case getRelativeStretch float_of self locationComplex iteratorForward of
           None \<Rightarrow> None
         | Some (Inl e) \<Rightarrow> Some (Inl e)
         | Some (Inr forwardStretch) \<Rightarrow>
        (case getRelativeStretch float_of self locationComplex iteratorBackward of
           None \<Rightarrow> None
         | Some (Inl e) \<Rightarrow> Some (Inl e)
         | Some (Inr backwardStretch) \<Rightarrow>
        (case getCrossLimitedStretch float_of self
                (of_real (8 / 10) * (forwardStretch + backwardStretch))
                crossIteratorForward locationComplex of
           None \<Rightarrow> None
         | Some (Inl e) \<Rightarrow> Some (Inl e)
         | Some (Inr relativeStretch1) \<Rightarrow>
        (case getCrossLimitedStretch float_of self relativeStretch1
                crossIteratorBackward locationComplex of
           None \<Rightarrow> None
         | Some (Inl e) \<Rightarrow> Some (Inl e)
         | Some (Inr relativeStretch2) \<Rightarrow>
             (let relativeStretchLength = cmod relativeStretch2;
                  relativeStretch =
                    (if relativeStretchLength > 1
                     then relativeStretch2 / of_real relativeStretchLength
                     else relativeStretch2);
                  absoluteStretch = relativeStretch * of_real (thread_maximum_absolute_stretch self);
                  stretchedPoint = dropAxis location + absoluteStretch
              in Some (Inr (getLinearGcodeMovementWithFeedRate
                              (feedRateMinute self) stretchedPoint (z_of location))))))))"

fun isJustBeforeExtrusion_in :: "Line list \<Rightarrow> bool" where
  "isJustBeforeExtrusion_in [] = False"
| "isJustBeforeExtrusion_in (line # rest) =
     (if command line = ''G1'' \<or> command line = ''M103'' then False
      else if command line = ''M101'' then True
      else isJustBeforeExtrusion_in rest)"

definition isJustBeforeExtrusion :: "StretchFilter \<Rightarrow> bool" where
  "isJustBeforeExtrusion self =
     isJustBeforeExtrusion_in (drop (line_number_in_layer self + 1) (current_layer self))"

text \<open>\<open>line.f or self.feedRateMinute\<close>: \<open>None\<close> and \<open>0\<close> are both false in Python.\<close>

definition getStretchedLine ::
  "float_builtin \<Rightarrow> StretchFilter \<Rightarrow> string list \<Rightarrow> Line \<Rightarrow>
   (error + gcode_line \<times> StretchFilter) option" where
  "getStretchedLine float_of self splitLine line =
     (case getLocationFromSplitLine float_of (oldLocation self) splitLine of
        Inl e \<Rightarrow> Some (Inl e)
      | Inr location \<Rightarrow>
          (let self1 = self\<lparr>feedRateMinute :=
                         (case feed line of
                            None \<Rightarrow> feedRateMinute self
                          | Some v \<Rightarrow> if v = 0 then feedRateMinute self else v)\<rparr>;
               self2 = self1\<lparr>oldLocation := Some location\<rparr>
           in if (extruderActive self2 \<and> thread_maximum_absolute_stretch self2 > 0)
                 \<or> (isJustBeforeExtrusion self2 \<and> thread_maximum_absolute_stretch self2 > 0)
              then (case getStretchedLineFromIndexLocation float_of self2
                           (int (line_number_in_layer self2) - 1)
                           (int (line_number_in_layer self2) + 1) location of
                      None \<Rightarrow> None
                    | Some (Inl e) \<Rightarrow> Some (Inl e)
                    | Some (Inr stretched) \<Rightarrow> Some (Inr (stretched, self2)))
              else Some (Inr (Text (raw line), self2))))"

subsection \<open>Scanning the program\<close>

definition isdigit :: "char \<Rightarrow> bool" where
  "isdigit c = (c \<in> set ''0123456789'')"

text \<open>
  \<open>EDGE_WIDTH_REGEXP.match(s)\<close> for the pattern \<open>\(<edgeWidth> ([\.\d]+)\<close>: the group, if the
  line begins with the literal text and at least one dot or digit follows it (the group is greedy).
\<close>

definition EDGE_WIDTH_REGEXP_match :: "string \<Rightarrow> string option" where
  "EDGE_WIDTH_REGEXP_match s =
     (if startswith s ''(<edgeWidth> '' then
        (let group1 = takeWhile (\<lambda>c. c = CHR ''.'' \<or> isdigit c) (drop (length ''(<edgeWidth> '') s)
         in if group1 = [] then None else Some group1)
      else None)"

definition parse_initialisation_line ::
  "float_builtin \<Rightarrow> StretchFilter \<Rightarrow> Line \<Rightarrow> error + bool \<times> StretchFilter" where
  "parse_initialisation_line float_of self line =
     (let self1 = self\<lparr>distanceFeedRate := parseSplitLine (distanceFeedRate self) (raw line)\<rparr>
      in if raw line = ''(</extruderInitialization>)'' then Inr (True, self1)
         else
           (case EDGE_WIDTH_REGEXP_match (raw line) of
              None \<Rightarrow>
                Inr (False, self1\<lparr>distanceFeedRate := addLine (distanceFeedRate self1) (Text (raw line))\<rparr>)
            | Some group1 \<Rightarrow>
               (case float_of group1 of
                  None \<Rightarrow> Inl ValueError
                | Some edgeWidth' \<Rightarrow>
                   (let repository = stretchRepository self1;
                        distance = edgeWidth self1 * crossLimitDistanceOverEdgeWidth repository;
                        pathStretch = edgeWidth self1 * pathStretchOverEdgeWidth repository;
                        fraction = (333333333 / 1000000000) * distance;
                        self2 = self1
                          \<lparr>crossLimitDistance := Some distance,
                           loopMaximumAbsoluteStretch :=
                             Some (edgeWidth self1 * loopStretchOverEdgeWidth repository),
                           pathAbsoluteStretch := Some pathStretch,
                           edgeInsideAbsoluteStretch :=
                             Some (edgeWidth self1 * edgeInsideStretchOverEdgeWidth repository),
                           edgeOutsideAbsoluteStretch :=
                             Some (edgeWidth self1 * edgeOutsideStretchOverEdgeWidth repository),
                           stretchFromDistance :=
                             Some (stretchFromDistanceOverEdgeWidth repository * edgeWidth'),
                           thread_maximum_absolute_stretch := pathStretch,
                           crossLimitDistanceFraction := Some fraction,
                           crossLimitDistanceRemainder := Some (distance - fraction)\<rparr>
                    in Inr (False,
                         self2\<lparr>distanceFeedRate :=
                                 addLine (distanceFeedRate self2) (Text (raw line))\<rparr>)))))"

definition set_stretch_to_path :: "StretchFilter \<Rightarrow> error + StretchFilter" where
  "set_stretch_to_path self =
     (case pathAbsoluteStretch (self\<lparr>filter_isLoop := False\<rparr>) of
        None \<Rightarrow> Inl AttributeError
      | Some pathStretch \<Rightarrow>
          Inr (self\<lparr>filter_isLoop := False, thread_maximum_absolute_stretch := pathStretch\<rparr>))"

definition is_loop_begin :: "Line \<Rightarrow> bool" where
  "is_loop_begin line = startswith (raw line) ''(<loop>''"

definition is_loop_end :: "Line \<Rightarrow> bool" where
  "is_loop_end line = startswith (raw line) ''(</loop>)''"

definition is_inner_edge_begin :: "Line \<Rightarrow> bool" where
  "is_inner_edge_begin line =
     (startswith (raw line) ''(<edge>'' \<and> \<not> startswith (raw line) ''(<edge> outer'')"

definition is_outer_edge_begin :: "Line \<Rightarrow> bool" where
  "is_outer_edge_begin line = startswith (raw line) ''(<edge> outer''"

definition is_edge_end :: "Line \<Rightarrow> bool" where
  "is_edge_end line = startswith (raw line) ''(/edge>)''"

text \<open>
  \<open>parse_line\<close>.  Every branch but the \<open>G1\<close> one ends in the common
  \<open>addLine(line.raw)\<close>; an exception leaves the method before it.
\<close>

definition parse_line ::
  "float_builtin \<Rightarrow> StretchFilter \<Rightarrow> Line \<Rightarrow> (error + StretchFilter) option" where
  "parse_line float_of self line =
     (case getSplitLineBeforeBracketSemicolon (raw line) of
        [] \<Rightarrow> Some (Inl IndexError)
      | command' # _ \<Rightarrow>
          if command' = ''G1'' then
            (case getStretchedLine float_of self (getSplitLineBeforeBracketSemicolon (raw line)) line of
               None \<Rightarrow> None
             | Some (Inl e) \<Rightarrow> Some (Inl e)
             | Some (Inr (stretched, self1)) \<Rightarrow>
                 Some (Inr (self1\<lparr>distanceFeedRate := addLine (distanceFeedRate self1) stretched\<rparr>)))
          else
            (case (if command' = ''M101'' then Inr (self\<lparr>extruderActive := True\<rparr>)
                   else if command' = ''M103'' then set_stretch_to_path (self\<lparr>extruderActive := False\<rparr>)
                   else if is_loop_begin line then
                     (case loopMaximumAbsoluteStretch (self\<lparr>filter_isLoop := True\<rparr>) of
                        None \<Rightarrow> Inl AttributeError
                      | Some v \<Rightarrow> Inr (self\<lparr>filter_isLoop := True, thread_maximum_absolute_stretch := v\<rparr>))
                   else if is_loop_end line then set_stretch_to_path self
                   else if is_inner_edge_begin line then
                     (case edgeInsideAbsoluteStretch (self\<lparr>filter_isLoop := True\<rparr>) of
                        None \<Rightarrow> Inl AttributeError
                      | Some v \<Rightarrow> Inr (self\<lparr>filter_isLoop := True, thread_maximum_absolute_stretch := v\<rparr>))
                   else if is_outer_edge_begin line then
                     (case edgeOutsideAbsoluteStretch (self\<lparr>filter_isLoop := True\<rparr>) of
                        None \<Rightarrow> Inl AttributeError
                      | Some v \<Rightarrow> Inr (self\<lparr>filter_isLoop := True, thread_maximum_absolute_stretch := v\<rparr>))
                   else if is_edge_end line then set_stretch_to_path self
                   else Inr self) of
               Inl e \<Rightarrow> Some (Inl e)
             | Inr self1 \<Rightarrow>
                 Some (Inr (self1\<lparr>distanceFeedRate :=
                                    addLine (distanceFeedRate self1) (Text (raw line))\<rparr>))))"

text \<open>
  \<open>filter\<close>.  Modelled from the spec: the parser \<open>GCode\<close> of \<open>gcodeutils/gcoder.py\<close> is not among
  the sources; it groups the lines of the text into layers, in source order.  The model starts
  from its result, \<open>self.gcode.all_layers\<close>.  The inner loop enumerates the lines of a layer, the
  outer loop the layers; \<open>init_done\<close> is the local variable of that name.
\<close>

fun filter_lines ::
  "float_builtin \<Rightarrow> bool \<Rightarrow> StretchFilter \<Rightarrow> nat \<Rightarrow> Line list \<Rightarrow> (error + bool \<times> StretchFilter) option" where
  "filter_lines float_of init_done self n [] = Some (Inr (init_done, self))"
| "filter_lines float_of init_done self n (line # rest) =
     (let self1 = self\<lparr>line_number_in_layer := n\<rparr>
      in if init_done then
           (case parse_line float_of self1 line of
              None \<Rightarrow> None
            | Some (Inl e) \<Rightarrow> Some (Inl e)
            | Some (Inr self2) \<Rightarrow> filter_lines float_of init_done self2 (n + 1) rest)
         else
           (case parse_initialisation_line float_of self1 line of
              Inl e \<Rightarrow> Some (Inl e)
            | Inr (init_done', self2) \<Rightarrow> filter_lines float_of init_done' self2 (n + 1) rest))"

fun filter_layers ::
  "float_builtin \<Rightarrow> bool \<Rightarrow> StretchFilter \<Rightarrow> Line list list \<Rightarrow> (error + bool \<times> StretchFilter) option" where
  "filter_layers float_of init_done self [] = Some (Inr (init_done, self))"
| "filter_layers float_of init_done self (layer # rest) =
     (case filter_lines float_of init_done (self\<lparr>current_layer := layer\<rparr>) 0 layer of
        None \<Rightarrow> None
      | Some (Inl e) \<Rightarrow> Some (Inl e)
      | Some (Inr (init_done', self1)) \<Rightarrow> filter_layers float_of init_done' self1 rest)"

definition filter_gcode ::
  "float_builtin \<Rightarrow> StretchFilter \<Rightarrow> Line list list \<Rightarrow> (error + gcode_line list) option" where
  "filter_gcode float_of self all_layers =
     (case filter_layers float_of False self all_layers of
        None \<Rightarrow> None
      | Some (Inl e) \<Rightarrow> Some (Inl e)
      | Some (Inr (_, self1)) \<Rightarrow> Some (Inr (output_lines (distanceFeedRate self1))))"

section \<open>Advancing an iterator repeatedly\<close>

text \<open>
  A caller that advances an iterator with \<open>getNext\<close> until a call raises, at most \<open>n\<close> times:
  \<open>Some (Some e)\<close> when one of the \<open>n\<close> calls raised \<open>e\<close> (every call before it returned a
  line), \<open>Some None\<close> when all \<open>n\<close> calls returned lines, \<open>None\<close> when a call never returned.
\<close>

fun first_raise_within :: "nat \<Rightarrow> LineIterator \<Rightarrow> error option option" where
  "first_raise_within 0 c = Some None"
| "first_raise_within (Suc n) c =
     (case getNext c of
        None \<Rightarrow> None
      | Some (Inl e, c') \<Rightarrow> Some (Some e)
      | Some (Inr line, c') \<Rightarrow> first_raise_within n c')"

text \<open>The same, counted from the result of a call already made.\<close>

definition first_raise_after ::
  "nat \<Rightarrow> ((error + string) \<times> LineIterator) option \<Rightarrow> error option option" where
  "first_raise_after n r =
     (case r of
        None \<Rightarrow> None
      | Some (Inl e, c') \<Rightarrow> Some (Some e)
      | Some (Inr line, c') \<Rightarrow> first_raise_within n c')"

text \<open>
  A closed loop of \<open>N\<close> linear moves in a layer: \<open>M101\<close> at the index \<open>s\<close> (not the first line
  of the layer), the \<open>N\<close> \<open>G1\<close> lines after it, \<open>M103\<close> at \<open>s + N + 1\<close>; and every earlier
  \<open>M101\<close> of the layer is followed by an \<open>M103\<close> before \<open>s\<close>.
\<close>

definition closed_loop :: "Line list \<Rightarrow> nat \<Rightarrow> nat \<Rightarrow> bool" where
  "closed_loop ls s N =
     (0 < s \<and> s + N + 1 < length ls
      \<and> command (ls ! s) = ''M101''
      \<and> list_all (\<lambda>k. command (ls ! k) = ''G1'') [s + 1 ..< s + N + 1]
      \<and> command (ls ! (s + N + 1)) = ''M103''
      \<and> list_all (\<lambda>k. command (ls ! k) = ''M101'' \<longrightarrow>
                       list_ex (\<lambda>m. command (ls ! m) = ''M103'') [k + 1 ..< s]) [0 ..< s])"

text \<open>The same layout with integer indices, and an iterator with the loop flag set.\<close>

definition loop_layout :: "Line list \<Rightarrow> int \<Rightarrow> int \<Rightarrow> bool" where
  "loop_layout ls s e =
     (0 < s \<and> s < e \<and> e < int (length ls)
      \<and> command (ls ! nat s) = ''M101''
      \<and> (\<forall>k. s < k \<and> k < e \<longrightarrow> command (ls ! nat k) = ''G1'')
      \<and> command (ls ! nat e) = ''M103''
      \<and> (\<forall>k. 0 \<le> k \<and> k < s \<and> command (ls ! nat k) = ''M101'' \<longrightarrow>
             (\<exists>m. k < m \<and> m < s \<and> command (ls ! nat m) = ''M103'')))"

definition cursor_at :: "iterator_class \<Rightarrow> Line list \<Rightarrow> int \<Rightarrow> int option \<Rightarrow> LineIterator" where
  "cursor_at k ls i f =
     \<lparr>iterator_class = k, firstLineIndex = f, isLoop = True, lineIndex = i, lines = ls\<rparr>"

section \<open>The points of a walk\<close>

text \<open>
  \<open>path_length\<close>: the length of the polygonal path from a start through a list of points, the
  sum that the loop of \<open>getRelativeStretch\<close> accumulates in \<open>totalLength\<close>.
  \<open>walked_points\<close>: the points that \<open>n\<close> successive calls of \<open>getNext\<close> give to that loop, each
  line split and read as the loop reads it, with the iterator as the calls leave it; \<open>None\<close> when
  one of the calls raises or does not return, or a line cannot be read.
\<close>

fun path_length :: "complex \<Rightarrow> complex list \<Rightarrow> real" where
  "path_length start [] = 0"
| "path_length start (p # ps) = cmod (start - p) + path_length p ps"

fun walked_points ::
  "float_builtin \<Rightarrow> StretchFilter \<Rightarrow> nat \<Rightarrow> LineIterator \<Rightarrow> (complex list \<times> LineIterator) option" where
  "walked_points float_of self 0 lineIterator = Some ([], lineIterator)"
| "walked_points float_of self (Suc n) lineIterator =
     (case getNext lineIterator of
        None \<Rightarrow> None
      | Some (Inl e, _) \<Rightarrow> None
      | Some (Inr line, lineIterator') \<Rightarrow>
          (case getSplitLineBeforeBracketSemicolon line of
             [] \<Rightarrow> None
           | firstWord # _ \<Rightarrow>
              (case getLocationFromSplitLine float_of (oldLocation self)
                      (getSplitLineBeforeBracketSemicolon line) of
                 Inl e \<Rightarrow> None
               | Inr point \<Rightarrow>
                  (case walked_points float_of self n lineIterator' of
                     None \<Rightarrow> None
                   | Some (points, rest) \<Rightarrow> Some (dropAxis point # points, rest)))))"

section \<open>Concrete inputs\<close>

text \<open>
  An instance of the parameter \<open>float_of\<close> for concrete inputs: the unsigned decimal numerals
  (digits with at most one dot), on which it gives the number that \<open>float\<close> reads; every other
  string is \<open>None\<close> here.  The concrete lines below carry no other kind of number.
\<close>

definition digit_value :: "char \<Rightarrow> nat" where
  "digit_value c = length (takeWhile (\<lambda>d. d \<noteq> c) ''0123456789'')"

definition digits_value :: "string \<Rightarrow> nat" where
  "digits_value s = foldl (\<lambda>n c. 10 * n + digit_value c) 0 s"

definition float_decimal :: float_builtin where
  "float_decimal s =
     (let whole = takeWhile isdigit s; rest = dropWhile isdigit s
      in case rest of
           [] \<Rightarrow> if whole = [] then None else Some (real (digits_value whole))
         | c # fraction \<Rightarrow>
             if c = CHR ''.'' \<and> list_all isdigit fraction \<and> \<not> (whole = [] \<and> fraction = [])
             then Some (real (digits_value whole)
                        + real (digits_value fraction) / 10 ^ length fraction)
             else None)"

text \<open>A line with its command token and raw text, and no feed rate.\<close>

definition gline :: "string \<Rightarrow> string \<Rightarrow> Line" where
  "gline c r = \<lparr>raw = r, command = c, feed = None\<rparr>"

text \<open>
  A layer with one closed loop: the loop comment, the approach move, \<open>M101\<close>, the four moves
  round the unit square, \<open>M103\<close>.
\<close>

definition square_layer :: "Line list" where
  "square_layer =
     [gline ''(<loop>'' ''(<loop> outer )'',
      gline ''G1'' ''G1 X0 Y0 Z0.2'',
      gline ''M101'' ''M101'',
      gline ''G1'' ''G1 X1 Y0'',
      gline ''G1'' ''G1 X1 Y1'',
      gline ''G1'' ''G1 X0 Y1'',
      gline ''G1'' ''G1 X0 Y0'',
      gline ''M103'' ''M103'']"

text \<open>
  The filter while it scans that layer, about to process line 4 (\<open>G1 X1 Y1\<close>): the thresholds
  are those that \<open>parse_initialisation_line\<close> derives for the comment \<open>(<edgeWidth> 0.4)\<close> with
  the default settings, the loop comment has set the loop flag and the loop magnitude, the
  extruder is on, and the last location is that of line 3.
\<close>

definition square_self :: StretchFilter where
  "square_self =
     \<lparr>distanceFeedRate = \<lparr>output_lines = []\<rparr>,
      edgeWidth = 4 / 10,
      extruderActive = True,
      feedRateMinute = 959,
      filter_isLoop = True,
      oldLocation = Some (Vector3 1 0 (2 / 10)),
      current_layer = square_layer,
      line_number_in_layer = 4,
      stretchRepository = StretchRepository_init,
      thread_maximum_absolute_stretch = 44 / 1000,
      crossLimitDistance = Some 2,
      loopMaximumAbsoluteStretch = Some (44 / 1000),
      pathAbsoluteStretch = Some 0,
      edgeInsideAbsoluteStretch = Some (128 / 1000),
      edgeOutsideAbsoluteStretch = Some (4 / 100),
      stretchFromDistance = Some (8 / 10),
      crossLimitDistanceFraction = Some (666666666 / 1000000000),
      crossLimitDistanceRemainder = Some (1333333334 / 1000000000)\<rparr>"

text \<open>
  The local values \<open>parallelNormal\<close> and \<open>crossNormal\<close> of \<open>getCrossLimitedStretch\<close>, as
  functions of the location and the neighbouring point: the unit vector from the point toward
  the location, and the unit vector across it.
\<close>

definition parallelNormal_of :: "complex \<Rightarrow> complex \<Rightarrow> complex" where
  "parallelNormal_of locationComplex pointComplex =
     (locationComplex - pointComplex) / of_real (cmod (locationComplex - pointComplex))"

definition crossNormal_of :: "complex \<Rightarrow> complex \<Rightarrow> complex" where
  "crossNormal_of locationComplex pointComplex =
     Complex (Im (parallelNormal_of locationComplex pointComplex))
             (- Re (parallelNormal_of locationComplex pointComplex))"

text \<open>Two layers of one move each: a neighbour at distance 1 and one at distance 1.5 of (2, 0).\<close>

definition near_layer :: "Line list" where
  "near_layer = [gline ''G1'' ''G1 X1 Y0'']"

definition far_layer :: "Line list" where
  "far_layer = [gline ''G1'' ''G1 X0.5 Y0'']"

text \<open>
  The same filter with the lookahead distance 1.5 (the one derived for an edge width of 0.75):
  longer than a side of the square.
\<close>

definition lookahead_self :: StretchFilter where
  "lookahead_self = square_self\<lparr>stretchFromDistance := Some (3 / 2)\<rparr>"

text \<open>A program whose initialisation block has no edge-width comment.\<close>

definition program_without_edge_width :: "Line list" where
  "program_without_edge_width =
     [gline ''(</extruderInitialization>)'' ''(</extruderInitialization>)'',
      gline ''G1'' ''G1 X0 Y0'',
      gline ''M101'' ''M101'',
      gline ''G1'' ''G1 X1 Y0'',
      gline ''G1'' ''G1 X1 Y1'']"

text \<open>
  A program of one layer whose loop has length zero: after the initialisation block and the loop
  comment, the approach move to (0, 0), \<open>M101\<close>, two moves to (0, 0), \<open>M103\<close>.
\<close>

definition zero_length_program :: "Line list" where
  "zero_length_program =
     [gline ''(<edgeWidth>'' ''(<edgeWidth> 0.4)'',
      gline ''(</extruderInitialization>)'' ''(</extruderInitialization>)'',
      gline ''(<loop>'' ''(<loop> outer )'',
      gline ''G1'' ''G1 X0 Y0'',
      gline ''M101'' ''M101'',
      gline ''G1'' ''G1 X0 Y0'',
      gline ''G1'' ''G1 X0 Y0'',
      gline ''M103'' ''M103'']"

text \<open>
  The filter of the square after an outer-edge comment: the loop flag is set and the active
  maximum is the outer-edge magnitude.
\<close>

definition edge_self :: StretchFilter where
  "edge_self = square_self
     \<lparr>distanceFeedRate := addLine (distanceFeedRate square_self) (Text ''(<edge> outer )''),
      thread_maximum_absolute_stretch := 4 / 100\<rparr>"

section \<open>Properties of the line iterators\<close>

lemma getitem_in_range: "0 \<le> i \<Longrightarrow> i < int (length xs) \<Longrightarrow> getitem xs i = Inr (xs ! nat i)"
  by (simp add: getitem_def Let_def)

lemma getIndexJustAfterActivate_from_none:
  "i < int (length ls) \<Longrightarrow> \<forall>j. 0 < j \<and> j \<le> i \<longrightarrow> command (ls ! nat j) \<noteq> ''M101''
   \<Longrightarrow> getIndexJustAfterActivate_from ls i = Inl StopIteration"
proof (induction ls i rule: getIndexJustAfterActivate_from.induct)
  case (1 ls i)
  show ?case
  proof (cases "i > 0")
    case False
    then show ?thesis by (subst getIndexJustAfterActivate_from.simps) simp
  next
    case True
    with "1.prems" have g: "getitem ls i = Inr (ls ! nat i)" by (simp add: getitem_in_range)
    from True "1.prems" have ne: "command (ls ! nat i) \<noteq> ''M101''" by simp
    have "getIndexJustAfterActivate_from ls (i - 1) = Inl StopIteration"
      using "1.IH"[OF True g ne] "1.prems" by simp
    then show ?thesis using True g ne by (subst getIndexJustAfterActivate_from.simps) simp
  qed
qed

lemma getIndexJustAfterActivate_from_found:
  "i < int (length ls) \<Longrightarrow> 0 < m \<Longrightarrow> m \<le> i \<Longrightarrow> command (ls ! nat m) = ''M101'' \<Longrightarrow>
   \<forall>j. m < j \<and> j \<le> i \<longrightarrow> command (ls ! nat j) \<noteq> ''M101''
   \<Longrightarrow> getIndexJustAfterActivate_from ls i = Inr (m + 1)"
proof (induction ls i rule: getIndexJustAfterActivate_from.induct)
  case (1 ls i)
  from "1.prems" have pos: "i > 0" by simp
  with "1.prems" have g: "getitem ls i = Inr (ls ! nat i)" by (simp add: getitem_in_range)
  show ?case
  proof (cases "m = i")
    case True
    then show ?thesis using pos g "1.prems" by (subst getIndexJustAfterActivate_from.simps) simp
  next
    case False
    with "1.prems" have ne: "command (ls ! nat i) \<noteq> ''M101''" by simp
    have "getIndexJustAfterActivate_from ls (i - 1) = Inr (m + 1)"
      using "1.IH"[OF pos g ne] "1.prems" False by simp
    then show ?thesis using pos g ne by (subst getIndexJustAfterActivate_from.simps) simp
  qed
qed

text \<open>
  C10.  A forward iterator with the loop flag set stands on an \<open>M103\<close> line.  The wrap looks for
  \<open>M101\<close> only at the indices strictly between 0 and the current index: the nearest \<open>M101\<close>
  there gives the index after it; when there is none there (whatever line 0 is, an \<open>M101\<close>
  included), the scan raises \<open>StopIteration\<close> and so does \<open>getNext\<close>, instead of wrapping.
\<close>

theorem forward_wrap_search_range:
  assumes fwd: "iterator_class c = LineIteratorForward"
    and loop: "isLoop c"
    and lo: "0 \<le> lineIndex c" and hi: "lineIndex c < int (length (lines c))"
    and off: "command (lines c ! nat (lineIndex c)) = ''M103''"
  shows "(\<forall>m. 0 < m \<and> m < lineIndex c \<and> command (lines c ! nat m) = ''M101'' \<and>
              (\<forall>j. m < j \<and> j < lineIndex c \<longrightarrow> command (lines c ! nat j) \<noteq> ''M101'')
            \<longrightarrow> getIndexJustAfterActivate c = Inr (m + 1))
       \<and> ((\<forall>j. 0 < j \<and> j < lineIndex c \<longrightarrow> command (lines c ! nat j) \<noteq> ''M101'')
            \<longrightarrow> getIndexJustAfterActivate c = Inl StopIteration
              \<and> (\<exists>c'. getNext c = Some (Inl StopIteration, c')))"
proof (intro conjI allI impI)
  fix m
  assume "0 < m \<and> m < lineIndex c \<and> command (lines c ! nat m) = ''M101'' \<and>
          (\<forall>j. m < j \<and> j < lineIndex c \<longrightarrow> command (lines c ! nat j) \<noteq> ''M101'')"
  then show "getIndexJustAfterActivate c = Inr (m + 1)"
    unfolding getIndexJustAfterActivate_def
    using hi by (intro getIndexJustAfterActivate_from_found) auto
next
  assume none: "\<forall>j. 0 < j \<and> j < lineIndex c \<longrightarrow> command (lines c ! nat j) \<noteq> ''M101''"
  then show stop: "getIndexJustAfterActivate c = Inl StopIteration"
    unfolding getIndexJustAfterActivate_def
    using hi by (intro getIndexJustAfterActivate_from_none) auto
  have stop': "\<And>fl. getIndexJustAfterActivate (c\<lparr>firstLineIndex := fl\<rparr>) = Inl StopIteration"
    using stop by (simp add: getIndexJustAfterActivate_def)
  show "\<exists>c'. getNext c = Some (Inl StopIteration, c')"
    using fwd loop lo hi off stop stop'
    by (simp add: getNext_def LineIteratorForward_getNext.simps[of c] Let_def getitem_in_range)
qed

theorem forward_wrap_search_range_witness:
  "getIndexJustAfterActivate
     (LineIterator_init LineIteratorForward True 2
        [\<lparr>raw = ''M101'', command = ''M101'', feed = None\<rparr>,
         \<lparr>raw = ''G1 X1 Y0'', command = ''G1'', feed = None\<rparr>,
         \<lparr>raw = ''M103'', command = ''M103'', feed = None\<rparr>]) = Inl StopIteration
   \<and> (\<exists>c'. getNext
     (LineIterator_init LineIteratorForward True 2
        [\<lparr>raw = ''M101'', command = ''M101'', feed = None\<rparr>,
         \<lparr>raw = ''G1 X1 Y0'', command = ''G1'', feed = None\<rparr>,
         \<lparr>raw = ''M103'', command = ''M103'', feed = None\<rparr>]) = Some (Inl StopIteration, c'))
   \<and> getIndexJustAfterActivate
     (LineIterator_init LineIteratorForward True 3
        [\<lparr>raw = ''G1 X0 Y0'', command = ''G1'', feed = None\<rparr>,
         \<lparr>raw = ''M101'', command = ''M101'', feed = None\<rparr>,
         \<lparr>raw = ''G1 X1 Y0'', command = ''G1'', feed = None\<rparr>,
         \<lparr>raw = ''M103'', command = ''M103'', feed = None\<rparr>]) = Inr 2"
proof -
  let ?a = "LineIterator_init LineIteratorForward True 2
        [\<lparr>raw = ''M101'', command = ''M101'', feed = None\<rparr>,
         \<lparr>raw = ''G1 X1 Y0'', command = ''G1'', feed = None\<rparr>,
         \<lparr>raw = ''M103'', command = ''M103'', feed = None\<rparr>]"
  let ?b = "LineIterator_init LineIteratorForward True 3
        [\<lparr>raw = ''G1 X0 Y0'', command = ''G1'', feed = None\<rparr>,
         \<lparr>raw = ''M101'', command = ''M101'', feed = None\<rparr>,
         \<lparr>raw = ''G1 X1 Y0'', command = ''G1'', feed = None\<rparr>,
         \<lparr>raw = ''M103'', command = ''M103'', feed = None\<rparr>]"
  have none: "\<forall>j. 0 < j \<and> j < lineIndex ?a \<longrightarrow> command (lines ?a ! nat j) \<noteq> ''M101''"
  proof (intro allI impI)
    fix j :: int assume "0 < j \<and> j < lineIndex ?a"
    then have "j = 1" by (simp add: LineIterator_init_def)
    then show "command (lines ?a ! nat j) \<noteq> ''M101''" by (simp add: LineIterator_init_def)
  qed
  have found: "0 < (1::int) \<and> 1 < lineIndex ?b \<and> command (lines ?b ! nat 1) = ''M101'' \<and>
              (\<forall>j. 1 < j \<and> j < lineIndex ?b \<longrightarrow> command (lines ?b ! nat j) \<noteq> ''M101'')"
  proof (intro conjI allI impI)
    fix j :: int assume "1 < j \<and> j < lineIndex ?b"
    then have "j = 2" by (simp add: LineIterator_init_def)
    then show "command (lines ?b ! nat j) \<noteq> ''M101''" by (simp add: LineIterator_init_def)
  qed (simp_all add: LineIterator_init_def)
  have pa: "iterator_class ?a = LineIteratorForward" "isLoop ?a" "0 \<le> lineIndex ?a"
    "lineIndex ?a < int (length (lines ?a))" "command (lines ?a ! nat (lineIndex ?a)) = ''M103''"
    by (simp_all add: LineIterator_init_def)
  have pb: "iterator_class ?b = LineIteratorForward" "isLoop ?b" "0 \<le> lineIndex ?b"
    "lineIndex ?b < int (length (lines ?b))" "command (lines ?b ! nat (lineIndex ?b)) = ''M103''"
    by (simp_all add: LineIterator_init_def)
  have a: "getIndexJustAfterActivate ?a = Inl StopIteration \<and> (\<exists>c'. getNext ?a = Some (Inl StopIteration, c'))"
    using forward_wrap_search_range[OF pa, THEN conjunct2] none by (rule mp)
  have b: "getIndexJustAfterActivate ?b = Inr (1 + 1)"
    using forward_wrap_search_range[OF pb, THEN conjunct1, THEN spec, of 1] found by (rule mp)
  show ?thesis using a b by simp
qed

section \<open>Evaluating the concrete inputs\<close>

lemmas parse_defs = getSplitLineBeforeBracketSemicolon_def str_find_def str_split_def isspace_def
  getLocationFromSplitLine_def getDoubleFromCharacterSplitLineValue_def
  getDoubleFromCharacterSplitLine_def getIndexOfStartingWithSecond_def getitem_def
  float_decimal_def isdigit_def digits_value_def digit_value_def

lemmas filter_defs = filter_gcode_def parse_initialisation_line_def parse_line_def getStretchedLine_def
  StretchFilter_init_def StretchRepository_init_def gline_def EDGE_WIDTH_REGEXP_match_def
  startswith_def parseSplitLine_def addLine_def isJustBeforeExtrusion_def set_stretch_to_path_def
  is_loop_begin_def is_loop_end_def is_inner_edge_begin_def is_outer_edge_begin_def is_edge_end_def

lemma square_self_thresholds:
  "(case parse_initialisation_line float_decimal (StretchFilter_init StretchRepository_init)
           (gline ''(<edgeWidth>'' ''(<edgeWidth> 0.4)'') of
      Inl e \<Rightarrow> False
    | Inr (init_done, self) \<Rightarrow>
        crossLimitDistance self = crossLimitDistance square_self
        \<and> crossLimitDistanceFraction self = crossLimitDistanceFraction square_self
        \<and> crossLimitDistanceRemainder self = crossLimitDistanceRemainder square_self
        \<and> stretchFromDistance self = stretchFromDistance square_self
        \<and> loopMaximumAbsoluteStretch self = Some (thread_maximum_absolute_stretch square_self)
        \<and> pathAbsoluteStretch self = pathAbsoluteStretch square_self)
   \<and> (case parse_initialisation_line float_decimal (StretchFilter_init StretchRepository_init)
           (gline ''(<edgeWidth>'' ''(<edgeWidth> 0.75)'') of
      Inl e \<Rightarrow> False
    | Inr (init_done, self) \<Rightarrow> stretchFromDistance self = stretchFromDistance lookahead_self)"
  by (simp add: parse_initialisation_line_def StretchFilter_init_def StretchRepository_init_def
        gline_def EDGE_WIDTH_REGEXP_match_def startswith_def parseSplitLine_def addLine_def
        float_decimal_def isdigit_def digits_value_def digit_value_def
        square_self_def lookahead_self_def)

lemma square_next_forward:
  "getNext (LineIterator_init LineIteratorForward True 5 square_layer) =
     Some (Inr ''G1 X0 Y1'',
           (LineIterator_init LineIteratorForward True 5 square_layer)
             \<lparr>firstLineIndex := Some 5, lineIndex := 6\<rparr>)"
  by (simp add: getNext_def LineIterator_init_def square_layer_def gline_def
      LineIteratorForward_getNext.simps getitem_def getIndexJustAfterActivate_def)

lemma square_next_backward:
  "getNext (LineIterator_init LineIteratorBackward True 3 square_layer) =
     Some (Inr ''G1 X1 Y0'',
           (LineIterator_init LineIteratorBackward True 3 square_layer)
             \<lparr>firstLineIndex := Some 3, lineIndex := 2\<rparr>)"
  by (simp add: getNext_def LineIterator_init_def square_layer_def gline_def
      LineIteratorBackward_getNext_def LineIteratorBackward_getNext_loop.simps getitem_def
      getIndexBeforeNextDeactivate_def isBeforeExtrusion_def)

lemma square_relative_forward:
  "stretchFromDistance s = Some (8 / 10) \<Longrightarrow>
   getRelativeStretch float_decimal s (Complex 1 1)
     (LineIterator_init LineIteratorForward True 5 square_layer) = Some (Inr (Complex 1 0))"
  unfolding getRelativeStretch_def
  apply (subst getRelativeStretch_loop.simps)
  apply (simp add: square_next_forward parse_defs dropAxis_def cmod_def complex_eq_iff
      split: option.split)
  done

lemma square_relative_backward:
  "stretchFromDistance s = Some (8 / 10) \<Longrightarrow>
   getRelativeStretch float_decimal s (Complex 1 1)
     (LineIterator_init LineIteratorBackward True 3 square_layer) = Some (Inr (Complex 0 1))"
  unfolding getRelativeStretch_def
  apply (subst getRelativeStretch_loop.simps)
  apply (simp add: square_next_backward parse_defs dropAxis_def cmod_def complex_eq_iff
      split: option.split)
  done

lemma square_cross_forward:
  "crossLimitDistance s = Some 2 \<Longrightarrow>
   crossLimitDistanceFraction s = Some (666666666 / 1000000000) \<Longrightarrow>
   crossLimitDistanceRemainder s = Some (1333333334 / 1000000000) \<Longrightarrow>
   getCrossLimitedStretch float_decimal s (Complex (4 / 5) (4 / 5))
     (LineIterator_init LineIteratorForward True 5 square_layer) (Complex 1 1)
   = Some (Inr (Complex (4 / 5) (400000000 / 666666667)))"
  unfolding getCrossLimitedStretch_def
  by (simp add: square_next_forward parse_defs dropAxis_def cmod_def complex_eq_iff
      getDotProduct_def Let_def split: option.split)

lemma square_cross_backward:
  "crossLimitDistance s = Some 2 \<Longrightarrow>
   crossLimitDistanceFraction s = Some (666666666 / 1000000000) \<Longrightarrow>
   crossLimitDistanceRemainder s = Some (1333333334 / 1000000000) \<Longrightarrow>
   getCrossLimitedStretch float_decimal s (Complex (4 / 5) (400000000 / 666666667))
     (LineIterator_init LineIteratorBackward True 3 square_layer) (Complex 1 1)
   = Some (Inr (Complex (400000000 / 666666667) (400000000 / 666666667)))"
  unfolding getCrossLimitedStretch_def
  by (simp add: square_next_backward parse_defs dropAxis_def cmod_def complex_eq_iff
      getDotProduct_def Let_def split: option.split)

lemma square_stretched_from_index:
  assumes "filter_isLoop s" "current_layer s = square_layer"
    "stretchFromDistance s = Some (8 / 10)"
    "crossLimitDistance s = Some 2" "crossLimitDistanceFraction s = Some (666666666 / 1000000000)"
    "crossLimitDistanceRemainder s = Some (1333333334 / 1000000000)"
    "thread_maximum_absolute_stretch s = 44 / 1000" "feedRateMinute s = 959"
  shows "getStretchedLineFromIndexLocation float_decimal s 3 5 (Vector3 1 1 (1 / 5))
    = Some (Inr (LinearGcodeMovementWithFeedRate 959
         (Complex (684266667 / 666666667) (684266667 / 666666667)) (1 / 5)))"
proof -
  have loc: "dropAxis (Vector3 1 1 (1 / 5)) = Complex 1 1" by (simp add: dropAxis_def)
  have h: "of_real (8 / 10) * (Complex 1 0 + Complex 0 1) = Complex (4 / 5) (4 / 5)"
    by (simp add: complex_eq_iff)
  have t: "filter_isLoop s = True" using assms(1) by simp
  have small: "\<not> 1 < cmod (Complex (400000000 / 666666667) (400000000 / 666666667))"
    by (simp add: cmod_def power2_eq_square)
  show ?thesis
    unfolding getStretchedLineFromIndexLocation_def Let_def loc t assms(2)
    apply (simp only: square_relative_forward[OF assms(3)] square_relative_backward[OF assms(3)]
        option.case sum.case h
        square_cross_forward[OF assms(4,5,6)] square_cross_backward[OF assms(4,5,6)])
    apply (simp add: assms(7,8) small complex_eq_iff getLinearGcodeMovementWithFeedRate_def)
    done
qed

lemma square_stretched_line:
  assumes loc: "getLocationFromSplitLine float_decimal (oldLocation square_self) splitLine
                  = Inr (Vector3 1 1 (1 / 5))"
    and feed: "feed line = None \<or> feed line = Some 0"
  shows "getStretchedLine float_decimal square_self splitLine line
   = Some (Inr (LinearGcodeMovementWithFeedRate 959
         (Complex (684266667 / 666666667) (684266667 / 666666667)) (1 / 5),
        square_self\<lparr>oldLocation := Some (Vector3 1 1 (1 / 5))\<rparr>))"
proof -
  have idx: "getStretchedLineFromIndexLocation float_decimal
       (square_self\<lparr>feedRateMinute := 959, oldLocation := Some (Vector3 1 1 (1 / 5))\<rparr>)
       3 5 (Vector3 1 1 (1 / 5))
    = Some (Inr (LinearGcodeMovementWithFeedRate 959
         (Complex (684266667 / 666666667) (684266667 / 666666667)) (1 / 5)))"
    by (rule square_stretched_from_index) (simp_all add: square_self_def)
  show ?thesis
    unfolding getStretchedLine_def loc
    using idx feed by (auto simp add: square_self_def)
qed

lemma square_location:
  "getLocationFromSplitLine float_decimal (oldLocation square_self) [''G1'', ''X1'', ''Y1'']
     = Inr (Vector3 1 1 (1 / 5))"
  by (simp add: parse_defs square_self_def)

lemma square_location_F0:
  "getLocationFromSplitLine float_decimal (oldLocation square_self) [''G1'', ''X1'', ''Y1'', ''F0'']
     = Inr (Vector3 1 1 (1 / 5))"
  by (simp add: parse_defs square_self_def)

section \<open>Properties of the filter\<close>

lemma getStretchedLineFromIndexLocation_result:
  assumes "getStretchedLineFromIndexLocation float_of self a b location = Some (Inr g)"
  shows "\<exists>rel. cmod rel \<le> 1 \<and>
           g = LinearGcodeMovementWithFeedRate (feedRateMinute self)
                 (dropAxis location + rel * of_real (thread_maximum_absolute_stretch self))
                 (z_of location)"
proof -
  from assms obtain r2 where
    g: "g = getLinearGcodeMovementWithFeedRate (feedRateMinute self)
             (dropAxis location +
                (if cmod r2 > 1 then r2 / of_real (cmod r2) else r2)
                  * of_real (thread_maximum_absolute_stretch self))
             (z_of location)"
    unfolding getStretchedLineFromIndexLocation_def Let_def
    by (auto split: option.splits sum.splits)
  let ?rel = "if cmod r2 > 1 then r2 / of_real (cmod r2) else r2"
  have "cmod ?rel \<le> 1" by (simp add: norm_divide)
  with g show ?thesis unfolding getLinearGcodeMovementWithFeedRate_def by blast
qed

lemma getStretchedLine_stretched:
  assumes "getStretchedLine float_of self splitLine line =
             Some (Inr (LinearGcodeMovementWithFeedRate fr p z, self'))"
  shows "\<exists>location rel.
           getLocationFromSplitLine float_of (oldLocation self) splitLine = Inr location \<and>
           thread_maximum_absolute_stretch self > 0 \<and> cmod rel \<le> 1 \<and>
           p = dropAxis location + rel * of_real (thread_maximum_absolute_stretch self) \<and>
           z = z_of location \<and>
           fr = feedRateMinute self' \<and>
           self' = self\<lparr>feedRateMinute :=
                         (case feed line of None \<Rightarrow> feedRateMinute self
                          | Some v \<Rightarrow> if v = 0 then feedRateMinute self else v),
                       oldLocation := Some location\<rparr>"
proof -
  from assms obtain location where
    loc: "getLocationFromSplitLine float_of (oldLocation self) splitLine = Inr location"
    unfolding getStretchedLine_def by (auto split: sum.splits)
  let ?s2 = "self\<lparr>feedRateMinute :=
                         (case feed line of None \<Rightarrow> feedRateMinute self
                          | Some v \<Rightarrow> if v = 0 then feedRateMinute self else v),
                       oldLocation := Some location\<rparr>"
  from assms loc have pos: "thread_maximum_absolute_stretch self > 0"
    and run: "getStretchedLineFromIndexLocation float_of ?s2
                (int (line_number_in_layer self) - 1) (int (line_number_in_layer self) + 1) location
              = Some (Inr (LinearGcodeMovementWithFeedRate fr p z))"
    and s': "self' = ?s2"
    unfolding getStretchedLine_def Let_def
    by (auto split: option.splits sum.splits if_splits)
  from getStretchedLineFromIndexLocation_result[OF run] s' loc pos
  show ?thesis by auto
qed

text \<open>
  C3.  When \<open>getStretchedLine\<close> replaces a move by a stretched one, the 2-D point handed to the
  emitter lies within \<open>thread_maximum_absolute_stretch\<close> (the active feature's maximum) of the
  move's own \<open>(x, y)\<close>: the relative stretch has length at most 1 when it is scaled.  (Exact
  arithmetic; the rendering of the point as text is not part of the model.)
\<close>

theorem stretched_point_within_maximum:
  assumes "getStretchedLine float_of self splitLine line =
             Some (Inr (LinearGcodeMovementWithFeedRate fr p z, self'))"
  shows "\<exists>location.
           getLocationFromSplitLine float_of (oldLocation self) splitLine = Inr location \<and>
           cmod (p - dropAxis location) \<le> thread_maximum_absolute_stretch self"
proof -
  from getStretchedLine_stretched[OF assms] obtain location rel where
    loc: "getLocationFromSplitLine float_of (oldLocation self) splitLine = Inr location"
    and pos: "thread_maximum_absolute_stretch self > 0" and rel: "cmod rel \<le> 1"
    and p: "p = dropAxis location + rel * of_real (thread_maximum_absolute_stretch self)"
    by blast
  have "cmod (p - dropAxis location) = cmod rel * thread_maximum_absolute_stretch self"
    using p pos by (simp add: norm_mult)
  also have "\<dots> \<le> 1 * thread_maximum_absolute_stretch self"
    using rel pos by (intro mult_right_mono) simp_all
  finally show ?thesis using loc by auto
qed

theorem stretched_point_within_maximum_witness:
  "getLocationFromSplitLine float_decimal (oldLocation square_self) [''G1'', ''X1'', ''Y1'']
     = Inr (Vector3 1 1 (1 / 5))
   \<and> cmod (Complex (684266667 / 666666667) (684266667 / 666666667) - dropAxis (Vector3 1 1 (1 / 5)))
       \<le> thread_maximum_absolute_stretch square_self"
  using stretched_point_within_maximum[OF square_stretched_line[OF square_location, of "gline ''G1'' ''G1 X1 Y1''"]]
  by (simp add: square_location gline_def)

text \<open>
  C9.  The height handed to the emitter with a stretched point is the \<open>z\<close> of the move's own
  location: the \<open>Z\<close> word of the line if it has one, the carried \<open>z\<close> otherwise.
\<close>

theorem stretched_line_keeps_z:
  assumes "getStretchedLine float_of self splitLine line =
             Some (Inr (LinearGcodeMovementWithFeedRate fr p z, self'))"
  shows "\<exists>location.
           getLocationFromSplitLine float_of (oldLocation self) splitLine = Inr location \<and>
           z = z_of location \<and>
           getDoubleFromCharacterSplitLineValue float_of (CHR ''Z'') splitLine
             (case oldLocation self of None \<Rightarrow> 0 | Some v \<Rightarrow> z_of v) = Inr z"
proof -
  from getStretchedLine_stretched[OF assms] obtain location where
    loc: "getLocationFromSplitLine float_of (oldLocation self) splitLine = Inr location"
    and z: "z = z_of location" by blast
  from loc have "getDoubleFromCharacterSplitLineValue float_of (CHR ''Z'') splitLine
             (case oldLocation self of None \<Rightarrow> 0 | Some v \<Rightarrow> z_of v) = Inr (z_of location)"
    unfolding getLocationFromSplitLine_def Let_def
    by (auto split: sum.splits option.splits)
  with loc z show ?thesis by auto
qed

theorem stretched_line_keeps_z_witness:
  "getLocationFromSplitLine float_decimal (oldLocation square_self) [''G1'', ''X1'', ''Y1'']
     = Inr (Vector3 1 1 (1 / 5))
   \<and> getDoubleFromCharacterSplitLineValue float_decimal (CHR ''Z'') [''G1'', ''X1'', ''Y1'']
       (case oldLocation square_self of None \<Rightarrow> 0 | Some v \<Rightarrow> z_of v) = Inr (1 / 5)"
  using stretched_line_keeps_z[OF square_stretched_line[OF square_location, of "gline ''G1'' ''G1 X1 Y1''"]]
  by (simp add: square_location gline_def)

lemma str_split_from_nonempty:
  "w \<noteq> [] \<Longrightarrow> \<exists>u ws. str_split_from w cs = (w @ u) # ws"
proof (induction cs arbitrary: w)
  case Nil
  then show ?case by simp
next
  case (Cons c cs)
  show ?case
  proof (cases "isspace c")
    case True
    with Cons.prems show ?thesis by simp
  next
    case False
    have "w @ [c] \<noteq> []" by simp
    from Cons.IH[OF this] obtain u ws where "str_split_from (w @ [c]) cs = ((w @ [c]) @ u) # ws"
      by blast
    with False have "str_split_from w (c # cs) = (w @ (c # u)) # ws" by simp
    then show ?thesis by blast
  qed
qed

lemma take_length_takeWhile: "take (length (takeWhile P xs)) xs = takeWhile P xs"
  by (induction xs) auto

lemma edge_end_first_word:
  assumes "startswith r ''(/edge>)''"
  shows "\<exists>u ws. getSplitLineBeforeBracketSemicolon r = (CHR ''('' # u) # ws"
proof -
  from assms obtain rest where r: "r = ''(/edge>)'' @ rest"
    unfolding startswith_def by (metis append_take_drop_id)
  define line1 where
    "line1 = (if CHR '';'' \<in> set r then take (nat (str_find r (CHR '';''))) r else r)"
  have "line1 = (if CHR '';'' \<in> set r then takeWhile (\<lambda>x. x \<noteq> CHR '';'') r else r)"
    unfolding line1_def str_find_def by (simp add: take_length_takeWhile)
  then have "\<exists>rest'. line1 = CHR ''('' # rest'"
    by (simp add: r)
  then obtain rest' where l1: "line1 = CHR ''('' # rest'" by blast
  have nosp: "\<not> isspace (CHR ''('')" by (simp add: isspace_def)
  have "getSplitLineBeforeBracketSemicolon r = str_split line1"
    unfolding getSplitLineBeforeBracketSemicolon_def Let_def line1_def[symmetric]
    by (simp add: l1 str_find_def)
  also have "\<dots> = str_split_from [CHR ''(''] rest'"
    by (simp add: str_split_def l1 nosp)
  finally show ?thesis using str_split_from_nonempty[of "[CHR ''('']" rest'] by auto
qed

text \<open>
  The literal that \<open>is_edge_end\<close> tests is \<open>(/edge>)\<close>.  A line whose raw text starts with it
  reaches the last branch of \<open>parse_line\<close>: the loop flag is cleared, the active maximum becomes
  \<open>pathAbsoluteStretch\<close>, and the line is passed through.
\<close>

lemma edge_end_literal_resets_to_path:
  assumes edge: "is_edge_end line" and path: "pathAbsoluteStretch self = Some pathStretch"
  shows "parse_line float_of self line =
           Some (Inr (self\<lparr>filter_isLoop := False,
                          thread_maximum_absolute_stretch := pathStretch,
                          distanceFeedRate := addLine (distanceFeedRate self) (Text (raw line))\<rparr>))"
proof -
  from edge have sw: "startswith (raw line) ''(/edge>)''" by (simp add: is_edge_end_def)
  from edge_end_first_word[OF sw] obtain u ws where
    split: "getSplitLineBeforeBracketSemicolon (raw line) = (CHR ''('' # u) # ws" by blast
  from sw obtain rest where r: "raw line = ''(/edge>)'' @ rest"
    unfolding startswith_def by (metis append_take_drop_id)
  have others: "\<not> is_loop_begin line" "\<not> is_loop_end line" "\<not> is_inner_edge_begin line"
    "\<not> is_outer_edge_begin line"
    by (simp_all add: is_loop_begin_def is_loop_end_def is_inner_edge_begin_def
          is_outer_edge_begin_def startswith_def r)
  show ?thesis
    unfolding parse_line_def split
    using others edge path by (simp add: set_stretch_to_path_def)
qed

text \<open>
  C6.  The edge-end marker is \<open>(</edge>)\<close>, the closing tag of \<open>(<edge>\<close>; \<open>is_loop_end\<close> tests
  \<open>(</loop>)\<close>, but \<open>is_edge_end\<close> tests \<open>(/edge>)\<close>, which no marker starts with.  After the
  outer-edge comment (loop flag set, active maximum 0.04, path magnitude 0) the line \<open>(</edge>)\<close>
  matches no branch of \<open>parse_line\<close>: it is passed through, the loop flag is still set and the
  active maximum is still 0.04.  The loop-end marker, in the same place, resets both.
\<close>

theorem edge_end_marker_not_recognised:
  "parse_line float_decimal square_self (gline ''(<edge>'' ''(<edge> outer )'') = Some (Inr edge_self)
   \<and> filter_isLoop edge_self = True
   \<and> thread_maximum_absolute_stretch edge_self = 4 / 100
   \<and> pathAbsoluteStretch edge_self = Some 0
   \<and> \<not> is_edge_end (gline ''(</edge>)'' ''(</edge>)'')
   \<and> parse_line float_decimal edge_self (gline ''(</edge>)'' ''(</edge>)'')
       = Some (Inr (edge_self\<lparr>distanceFeedRate :=
                      addLine (distanceFeedRate edge_self) (Text ''(</edge>)'')\<rparr>))
   \<and> filter_isLoop (edge_self\<lparr>distanceFeedRate :=
                      addLine (distanceFeedRate edge_self) (Text ''(</edge>)'')\<rparr>) = True
   \<and> thread_maximum_absolute_stretch (edge_self\<lparr>distanceFeedRate :=
                      addLine (distanceFeedRate edge_self) (Text ''(</edge>)'')\<rparr>) = 4 / 100
   \<and> parse_line float_decimal edge_self (gline ''(</loop>)'' ''(</loop>)'')
       = Some (Inr (edge_self\<lparr>distanceFeedRate :=
                      addLine (distanceFeedRate edge_self) (Text ''(</loop>)''),
                    filter_isLoop := False, thread_maximum_absolute_stretch := 0\<rparr>))"
  by (simp add: filter_defs parse_defs edge_self_def square_self_def)

text \<open>
  C1.  The comment \<open>(<edgeWidth> 0.6)\<close> met during initialisation, default settings: only the
  lookahead distance is a ratio of 0.6.  The cross-limit distance and the loop, inner-edge and
  outer-edge magnitudes are ratios of the attribute \<open>self.edgeWidth\<close>, which is still 0.4.
\<close>

theorem edge_width_marker_thresholds:
  "(case parse_initialisation_line float_decimal (StretchFilter_init StretchRepository_init)
           (gline ''(<edgeWidth>'' ''(<edgeWidth> 0.6)'') of
      Inl e \<Rightarrow> False
    | Inr (init_done, self) \<Rightarrow>
        crossLimitDistance self = Some 2
        \<and> crossLimitDistance self \<noteq> Some (crossLimitDistanceOverEdgeWidth StretchRepository_init * (6 / 10))
        \<and> loopMaximumAbsoluteStretch self = Some (44 / 1000)
        \<and> loopMaximumAbsoluteStretch self \<noteq> Some (loopStretchOverEdgeWidth StretchRepository_init * (6 / 10))
        \<and> edgeInsideAbsoluteStretch self = Some (128 / 1000)
        \<and> edgeInsideAbsoluteStretch self \<noteq> Some (edgeInsideStretchOverEdgeWidth StretchRepository_init * (6 / 10))
        \<and> edgeOutsideAbsoluteStretch self = Some (4 / 100)
        \<and> edgeOutsideAbsoluteStretch self \<noteq> Some (edgeOutsideStretchOverEdgeWidth StretchRepository_init * (6 / 10))
        \<and> stretchFromDistance self = Some (stretchFromDistanceOverEdgeWidth StretchRepository_init * (6 / 10)))"
  by (simp add: parse_initialisation_line_def StretchFilter_init_def StretchRepository_init_def
        gline_def EDGE_WIDTH_REGEXP_match_def startswith_def parseSplitLine_def addLine_def
        float_decimal_def isdigit_def digits_value_def digit_value_def)

text \<open>
  C7.  A program with no edge-width comment, path ratio set to 0.5.  The derived thresholds are
  never assigned: the first \<open>M103\<close> after the initialisation block reads \<open>pathAbsoluteStretch\<close>
  and the run ends in \<open>AttributeError\<close>; without that \<open>M103\<close> the run completes, and every move
  is passed through unchanged, the active maximum being still the 0 of \<open>__init__\<close>.
\<close>

theorem no_edge_width_marker:
  "filter_gcode float_decimal
     (StretchFilter_init (StretchRepository_init\<lparr>pathStretchOverEdgeWidth := 1 / 2\<rparr>))
     [program_without_edge_width @ [gline ''M103'' ''M103'']] = Some (Inl AttributeError)
   \<and> filter_gcode float_decimal
     (StretchFilter_init (StretchRepository_init\<lparr>pathStretchOverEdgeWidth := 1 / 2\<rparr>))
     [program_without_edge_width]
     = Some (Inr [Text ''G1 X0 Y0'', Text ''M101'', Text ''G1 X1 Y0'', Text ''G1 X1 Y1''])"
  by (simp add: program_without_edge_width_def filter_defs parse_defs)

text \<open>
  C8.  The move \<open>G1 X1 Y1 F0\<close> (\<open>line.f\<close> is 0) processed in the square loop: \<open>line.f or
  self.feedRateMinute\<close> keeps the carried 959, the stretched line is emitted with 959, and 959 is
  still the carried value afterwards.
\<close>

theorem feed_rate_zero_not_carried:
  "getStretchedLine float_decimal square_self [''G1'', ''X1'', ''Y1'', ''F0'']
     \<lparr>raw = ''G1 X1 Y1 F0'', command = ''G1'', feed = Some 0\<rparr>
   = Some (Inr (LinearGcodeMovementWithFeedRate 959
         (Complex (684266667 / 666666667) (684266667 / 666666667)) (1 / 5),
        square_self\<lparr>oldLocation := Some (Vector3 1 1 (1 / 5))\<rparr>))
   \<and> feedRateMinute (square_self\<lparr>oldLocation := Some (Vector3 1 1 (1 / 5))\<rparr>) = 959"
  using square_stretched_line[OF square_location_F0,
          of "\<lparr>raw = ''G1 X1 Y1 F0'', command = ''G1'', feed = Some 0\<rparr>"]
  by (simp add: square_self_def)

section \<open>Cross-limiting\<close>

lemma getCrossLimitedStretch_between:
  assumes nxt: "getNext it = Some (Inr line, it')"
    and pt: "getLocationFromSplitLine float_of (oldLocation self)
               (getSplitLineBeforeBracketSemicolon line) = Inr point"
    and F: "crossLimitDistanceFraction self = Some fraction"
    and D: "crossLimitDistance self = Some distance"
    and R: "crossLimitDistanceRemainder self = Some remainder"
    and rem: "remainder \<noteq> 0"
    and lo: "fraction < cmod (loc - dropAxis point)" and nonneg: "0 \<le> fraction"
    and hi: "cmod (loc - dropAxis point) \<le> distance"
  shows "getCrossLimitedStretch float_of self stretch it loc =
           Some (Inr
             (of_real (getDotProduct (parallelNormal_of loc (dropAxis point)) stretch)
                  * parallelNormal_of loc (dropAxis point)
              + of_real (getDotProduct (crossNormal_of loc (dropAxis point)) stretch)
                  * crossNormal_of loc (dropAxis point)
                  * of_real ((distance - cmod (loc - dropAxis point)) / remainder)))"
proof -
  from lo nonneg have "cmod (loc - dropAxis point) \<noteq> 0" by linarith
  with lo hi rem show ?thesis
    by (simp add: getCrossLimitedStretch_def Let_def nxt pt F D R
          parallelNormal_of_def crossNormal_of_def)
qed

lemma dot_decomposition:
  fixes n :: complex
  assumes unit: "cmod n = 1"
  defines "c \<equiv> Complex (Im n) (- Re n)"
  shows "getDotProduct c (of_real a * n + of_real b * c * of_real q) = b * q"
    and "getDotProduct n (of_real a * n + of_real b * c * of_real q) = a"
proof -
  from unit have "(Re n)\<^sup>2 + (Im n)\<^sup>2 = 1"
    by (metis cmod_power2 one_power2)
  then have sq: "Re n * Re n + Im n * Im n = 1" by (simp add: power2_eq_square)
  have "getDotProduct c (of_real a * n + of_real b * c * of_real q)
      = b * q * (Re n * Re n + Im n * Im n)"
    by (simp add: getDotProduct_def c_def algebra_simps)
  then show "getDotProduct c (of_real a * n + of_real b * c * of_real q) = b * q"
    by (simp add: sq)
  have "getDotProduct n (of_real a * n + of_real b * c * of_real q)
      = a * (Re n * Re n + Im n * Im n)"
    by (simp add: getDotProduct_def c_def algebra_simps)
  then show "getDotProduct n (of_real a * n + of_real b * c * of_real q) = a"
    by (simp add: sq)
qed


lemma cross_limited_components:
  assumes nxt: "getNext it = Some (Inr line, it')"
    and pt: "getLocationFromSplitLine float_of (oldLocation self)
               (getSplitLineBeforeBracketSemicolon line) = Inr point"
    and F: "crossLimitDistanceFraction self = Some fraction"
    and D: "crossLimitDistance self = Some distance"
    and R: "crossLimitDistanceRemainder self = Some remainder"
    and rem: "remainder \<noteq> 0"
    and lo: "fraction < cmod (loc - dropAxis point)" and nonneg: "0 \<le> fraction"
    and hi: "cmod (loc - dropAxis point) \<le> distance"
  shows "\<exists>r. getCrossLimitedStretch float_of self stretch it loc = Some (Inr r)
     \<and> getDotProduct (crossNormal_of loc (dropAxis point)) r
         = getDotProduct (crossNormal_of loc (dropAxis point)) stretch
             * ((distance - cmod (loc - dropAxis point)) / remainder)
     \<and> getDotProduct (parallelNormal_of loc (dropAxis point)) r
         = getDotProduct (parallelNormal_of loc (dropAxis point)) stretch"
proof -
  let ?n = "parallelNormal_of loc (dropAxis point)"
  let ?c = "crossNormal_of loc (dropAxis point)"
  let ?q = "(distance - cmod (loc - dropAxis point)) / remainder"
  let ?r = "of_real (getDotProduct ?n stretch) * ?n + of_real (getDotProduct ?c stretch) * ?c * of_real ?q"
  from lo nonneg have pos: "cmod (loc - dropAxis point) > 0" by linarith
  then have unit: "cmod ?n = 1"
    by (simp add: parallelNormal_of_def norm_divide)
  have r: "getCrossLimitedStretch float_of self stretch it loc = Some (Inr ?r)"
    by (rule getCrossLimitedStretch_between[OF nxt pt F D R rem lo nonneg hi])
  have c: "getDotProduct ?c ?r = getDotProduct ?c stretch * ?q"
    unfolding crossNormal_of_def by (rule dot_decomposition(1)[OF unit])
  have n: "getDotProduct ?n ?r = getDotProduct ?n stretch"
    unfolding crossNormal_of_def by (rule dot_decomposition(2)[OF unit])
  from r c n show ?thesis by blast
qed

lemma near_next:
  "getNext (LineIterator_init LineIteratorForward False 0 near_layer) =
     Some (Inr ''G1 X1 Y0'',
       (LineIterator_init LineIteratorForward False 0 near_layer)
          \<lparr>firstLineIndex := Some 0, lineIndex := 1\<rparr>)"
  by (simp add: getNext_def LineIterator_init_def near_layer_def gline_def
      LineIteratorForward_getNext.simps getitem_def)

lemma far_next:
  "getNext (LineIterator_init LineIteratorForward False 0 far_layer) =
     Some (Inr ''G1 X0.5 Y0'',
       (LineIterator_init LineIteratorForward False 0 far_layer)
          \<lparr>firstLineIndex := Some 0, lineIndex := 1\<rparr>)"
  by (simp add: getNext_def LineIterator_init_def far_layer_def gline_def
      LineIteratorForward_getNext.simps getitem_def)

lemma near_point:
  "getLocationFromSplitLine float_decimal (oldLocation square_self)
     (getSplitLineBeforeBracketSemicolon ''G1 X1 Y0'') = Inr (Vector3 1 0 (1 / 5))"
  by (simp add: parse_defs square_self_def)

lemma far_point:
  "getLocationFromSplitLine float_decimal (oldLocation square_self)
     (getSplitLineBeforeBracketSemicolon ''G1 X0.5 Y0'') = Inr (Vector3 (1 / 2) 0 (1 / 5))"
  by (simp add: parse_defs square_self_def)

text \<open>
  C2, as stated, fails.  The same stretch (0, 1) at the location (2, 0), cross-limit distance 2:
  a neighbour at distance 1 keeps 0.75 of the perpendicular component, a neighbour at distance
  1.5 keeps 0.375 of it.  The nearer neighbour keeps more, not less.
\<close>

theorem cross_limit_not_decreasing:
  "getCrossLimitedStretch float_decimal square_self (Complex 0 1)
      (LineIterator_init LineIteratorForward False 0 near_layer) (Complex 2 0)
     = Some (Inr (Complex 0 (500000000 / 666666667)))
   \<and> getCrossLimitedStretch float_decimal square_self (Complex 0 1)
      (LineIterator_init LineIteratorForward False 0 far_layer) (Complex 2 0)
     = Some (Inr (Complex 0 (250000000 / 666666667)))
   \<and> cmod (Complex 2 0 - Complex 1 0) = 1
   \<and> cmod (Complex 2 0 - Complex (1 / 2) 0) = 3 / 2
   \<and> \<not> ((500000000 / 666666667 :: real) \<le> 250000000 / 666666667)"
  by (simp add: getCrossLimitedStretch_def near_next far_next parse_defs
      square_self_def dropAxis_def cmod_def complex_eq_iff getDotProduct_def Let_def)


text \<open>
  C2, amended.  For a neighbour found at a distance \<open>d\<close> with \<open>fraction < d \<le> distance\<close>, the
  result keeps the whole component of the stretch along the direction to the neighbour, and of
  the component across it the portion \<open>q = (distance - d) / (distance - fraction)\<close>.  Of two
  such neighbours the nearer keeps the larger portion: \<open>q\<close> is 0 at the cross-limit distance
  and grows, below 1, as \<open>d\<close> decreases toward the one-third threshold.
\<close>

theorem cross_limit_ramp:
  assumes F: "crossLimitDistanceFraction self = Some fraction"
    and D: "crossLimitDistance self = Some distance"
    and R: "crossLimitDistanceRemainder self = Some (distance - fraction)"
    and nonneg: "0 \<le> fraction" and lt: "fraction < distance"
    and n1: "getNext it1 = Some (Inr line1, it1')"
    and p1: "getLocationFromSplitLine float_of (oldLocation self)
               (getSplitLineBeforeBracketSemicolon line1) = Inr point1"
    and n2: "getNext it2 = Some (Inr line2, it2')"
    and p2: "getLocationFromSplitLine float_of (oldLocation self)
               (getSplitLineBeforeBracketSemicolon line2) = Inr point2"
    and lo: "fraction < cmod (loc - dropAxis point1)"
    and le: "cmod (loc - dropAxis point1) \<le> cmod (loc - dropAxis point2)"
    and hi: "cmod (loc - dropAxis point2) \<le> distance"
  shows "\<exists>r1 r2 q1 q2.
      getCrossLimitedStretch float_of self stretch it1 loc = Some (Inr r1)
    \<and> getCrossLimitedStretch float_of self stretch it2 loc = Some (Inr r2)
    \<and> q1 = (distance - cmod (loc - dropAxis point1)) / (distance - fraction)
    \<and> q2 = (distance - cmod (loc - dropAxis point2)) / (distance - fraction)
    \<and> getDotProduct (crossNormal_of loc (dropAxis point1)) r1
        = getDotProduct (crossNormal_of loc (dropAxis point1)) stretch * q1
    \<and> getDotProduct (crossNormal_of loc (dropAxis point2)) r2
        = getDotProduct (crossNormal_of loc (dropAxis point2)) stretch * q2
    \<and> getDotProduct (parallelNormal_of loc (dropAxis point1)) r1
        = getDotProduct (parallelNormal_of loc (dropAxis point1)) stretch
    \<and> getDotProduct (parallelNormal_of loc (dropAxis point2)) r2
        = getDotProduct (parallelNormal_of loc (dropAxis point2)) stretch
    \<and> 0 \<le> q2 \<and> q2 \<le> q1 \<and> q1 < 1"
proof -
  from lt have rem: "distance - fraction \<noteq> 0" and rpos: "0 < distance - fraction" by simp_all
  from lo le have lo2: "fraction < cmod (loc - dropAxis point2)" by linarith
  from le hi have hi1: "cmod (loc - dropAxis point1) \<le> distance" by linarith
  from cross_limited_components[OF n1 p1 F D R rem lo nonneg hi1, of stretch]
  obtain r1 where r1: "getCrossLimitedStretch float_of self stretch it1 loc = Some (Inr r1)"
    "getDotProduct (crossNormal_of loc (dropAxis point1)) r1
         = getDotProduct (crossNormal_of loc (dropAxis point1)) stretch
             * ((distance - cmod (loc - dropAxis point1)) / (distance - fraction))"
    "getDotProduct (parallelNormal_of loc (dropAxis point1)) r1
         = getDotProduct (parallelNormal_of loc (dropAxis point1)) stretch"
    by blast
  from cross_limited_components[OF n2 p2 F D R rem lo2 nonneg hi, of stretch]
  obtain r2 where r2: "getCrossLimitedStretch float_of self stretch it2 loc = Some (Inr r2)"
    "getDotProduct (crossNormal_of loc (dropAxis point2)) r2
         = getDotProduct (crossNormal_of loc (dropAxis point2)) stretch
             * ((distance - cmod (loc - dropAxis point2)) / (distance - fraction))"
    "getDotProduct (parallelNormal_of loc (dropAxis point2)) r2
         = getDotProduct (parallelNormal_of loc (dropAxis point2)) stretch"
    by blast
  have q2: "0 \<le> (distance - cmod (loc - dropAxis point2)) / (distance - fraction)"
    using hi rpos by simp
  have q21: "(distance - cmod (loc - dropAxis point2)) / (distance - fraction)
      \<le> (distance - cmod (loc - dropAxis point1)) / (distance - fraction)"
    using le rpos by (simp add: divide_right_mono)
  have q1: "(distance - cmod (loc - dropAxis point1)) / (distance - fraction) < 1"
    using lo rpos by simp
  from r1 r2 q2 q21 q1 show ?thesis by blast
qed

theorem cross_limit_ramp_witness:
  "\<exists>r1 r2 q1 q2.
      getCrossLimitedStretch float_decimal square_self (Complex 0 1)
        (LineIterator_init LineIteratorForward False 0 near_layer) (Complex 2 0) = Some (Inr r1)
    \<and> getCrossLimitedStretch float_decimal square_self (Complex 0 1)
        (LineIterator_init LineIteratorForward False 0 far_layer) (Complex 2 0) = Some (Inr r2)
    \<and> q1 = (2 - cmod (Complex 2 0 - dropAxis (Vector3 1 0 (1 / 5)))) / (2 - 666666666 / 1000000000)
    \<and> q2 = (2 - cmod (Complex 2 0 - dropAxis (Vector3 (1 / 2) 0 (1 / 5)))) / (2 - 666666666 / 1000000000)
    \<and> getDotProduct (crossNormal_of (Complex 2 0) (dropAxis (Vector3 1 0 (1 / 5)))) r1
        = getDotProduct (crossNormal_of (Complex 2 0) (dropAxis (Vector3 1 0 (1 / 5)))) (Complex 0 1) * q1
    \<and> getDotProduct (crossNormal_of (Complex 2 0) (dropAxis (Vector3 (1 / 2) 0 (1 / 5)))) r2
        = getDotProduct (crossNormal_of (Complex 2 0) (dropAxis (Vector3 (1 / 2) 0 (1 / 5)))) (Complex 0 1) * q2
    \<and> getDotProduct (parallelNormal_of (Complex 2 0) (dropAxis (Vector3 1 0 (1 / 5)))) r1
        = getDotProduct (parallelNormal_of (Complex 2 0) (dropAxis (Vector3 1 0 (1 / 5)))) (Complex 0 1)
    \<and> getDotProduct (parallelNormal_of (Complex 2 0) (dropAxis (Vector3 (1 / 2) 0 (1 / 5)))) r2
        = getDotProduct (parallelNormal_of (Complex 2 0) (dropAxis (Vector3 (1 / 2) 0 (1 / 5)))) (Complex 0 1)
    \<and> 0 \<le> q2 \<and> q2 \<le> q1 \<and> q1 < 1"
proof -
  have F: "crossLimitDistanceFraction square_self = Some (666666666 / 1000000000)"
    and D: "crossLimitDistance square_self = Some 2"
    and R: "crossLimitDistanceRemainder square_self = Some (2 - 666666666 / 1000000000)"
    by (simp_all add: square_self_def)
  have d1: "cmod (Complex 2 0 - dropAxis (Vector3 1 0 (1 / 5))) = 1"
    and d2: "cmod (Complex 2 0 - dropAxis (Vector3 (1 / 2) 0 (1 / 5))) = 3 / 2"
    by (simp_all add: dropAxis_def cmod_def)
  show ?thesis
    by (rule cross_limit_ramp[OF F D R _ _ near_next near_point far_next far_point])
       (simp_all add: d1 d2)
qed


section \<open>The tangent estimate\<close>

lemma interpolated_point:
  fixes loc lastp p :: complex
  assumes len: "cmod (lastp - p) \<noteq> 0" and old: "old < D"
  defines "t \<equiv> (D - old) / cmod (lastp - p)"
  shows "of_real t * p + of_real (1 - t) * lastp = lastp + of_real t * (p - lastp)"
    and "cmod ((lastp + of_real t * (p - lastp)) - lastp) = D - old"
proof -
  show "of_real t * p + of_real (1 - t) * lastp = lastp + of_real t * (p - lastp)"
    by (simp add: algebra_simps)
  have "t \<ge> 0" using old len by (simp add: t_def)
  then have "cmod (of_real t * (p - lastp)) = t * cmod (lastp - p)"
    by (simp add: norm_mult norm_minus_commute)
  also have "\<dots> = D - old" using len by (simp add: t_def)
  finally show "cmod ((lastp + of_real t * (p - lastp)) - lastp) = D - old" by simp
qed

lemma interpolated_bound:
  fixes loc lastp p :: complex
  assumes chord: "cmod (loc - lastp) \<le> old" and old: "old < D"
    and len: "cmod (lastp - p) \<noteq> 0"
  shows "cmod (loc - (lastp + of_real ((D - old) / cmod (lastp - p)) * (p - lastp))) \<le> D"
proof -
  let ?P = "lastp + of_real ((D - old) / cmod (lastp - p)) * (p - lastp)"
  have e: "loc - ?P = (loc - lastp) - (?P - lastp)" by simp
  have "cmod (loc - ?P) \<le> cmod (loc - lastp) + cmod (?P - lastp)"
    by (subst e) (rule norm_triangle_ineq4)
  also have "cmod (?P - lastp) = D - old"
    by (rule interpolated_point(2)[OF len old])
  finally show ?thesis using chord by linarith
qed

lemma getRelativeStretch_loop_stop:
  assumes "getNext it = Some (Inl StopIteration, it')"
  shows "getRelativeStretch_loop float_of self loc it lastp old pt tot =
           Some (Inr (if loc = pt then 0 else (loc - pt) / of_real (cmod (loc - pt))))"
  by (subst getRelativeStretch_loop.simps) (simp add: assms Let_def)


lemma unit_or_zero: "cmod (if (a::complex) = b then 0 else (a - b) / of_real (cmod (a - b))) \<le> 1"
  by (simp add: norm_divide)

lemma getRelativeStretch_loop_norm:
  assumes run: "getRelativeStretch_loop float_of self loc it lastp old pt tot = Some res"
  shows "pt = lastp \<longrightarrow> tot = old \<longrightarrow> cmod (loc - lastp) \<le> old \<longrightarrow>
         (\<forall>D v. stretchFromDistance self = Some D \<longrightarrow> 0 < D \<longrightarrow> old < D \<longrightarrow>
                res = Inr v \<longrightarrow> cmod v \<le> 1)"
proof (rule getRelativeStretch_loop.raw_induct[where
        P = "\<lambda>float_of self loc it lastp old pt tot res.
               pt = lastp \<longrightarrow> tot = old \<longrightarrow> cmod (loc - lastp) \<le> old \<longrightarrow>
               (\<forall>D v. stretchFromDistance self = Some D \<longrightarrow> 0 < D \<longrightarrow> old < D \<longrightarrow>
                      res = Inr v \<longrightarrow> cmod v \<le> 1)", OF _ run], goal_cases)
  case (1 rec float_of self loc it lastp old pt tot res)
  show ?case
  proof (intro impI allI)
    fix D v
    assume eq: "pt = lastp" "tot = old" and chord: "cmod (loc - lastp) \<le> old"
      and D: "stretchFromDistance self = Some D" and pos: "0 < D" and old: "old < D"
      and res: "res = Inr v"
    note body = 1(2)[unfolded res eq]
    show "cmod v \<le> 1"
    proof (cases "getNext it")
      case None
      with body show ?thesis by simp
    next
      case (Some r)
      obtain out it' where r: "r = (out, it')" by (cases r)
      show ?thesis
      proof (cases out)
        case (Inl e)
        with body Some r have "v = (if loc = lastp then 0 else (loc - lastp) / of_real (cmod (loc - lastp)))"
          by (auto simp: Let_def split: if_splits)
        then show ?thesis using unit_or_zero[of loc lastp] by simp
      next
        case (Inr line)
        from body Some r Inr obtain point where
          pt: "getLocationFromSplitLine float_of (oldLocation self)
                 (getSplitLineBeforeBracketSemicolon line) = Inr point"
          by (auto split: list.splits sum.splits)
        let ?p = "dropAxis point"
        let ?len = "cmod (lastp - ?p)"
        show ?thesis
        proof (cases "D \<le> old + ?len")
          case True
          with old have len: "?len \<noteq> 0" by auto
          from body Some r Inr pt D True len pos
          have v: "v = (loc - (of_real ((D - old) / ?len) * ?p
                          + of_real (1 - (D - old) / ?len) * lastp)) / of_real D"
            by (auto simp: Let_def split: list.splits)
          have "cmod (loc - (of_real ((D - old) / ?len) * ?p
                          + of_real (1 - (D - old) / ?len) * lastp)) \<le> D"
            unfolding interpolated_point(1)[OF len old]
            by (rule interpolated_bound[OF chord old len])
          then show ?thesis using pos by (simp add: v norm_divide)
        next
          case False
          with body Some r Inr pt D
          have rec: "rec float_of self loc it' ?p (old + ?len) ?p (old + ?len) = Some (Inr v)"
            by (auto simp: Let_def split: list.splits)
          have "cmod ((loc - lastp) + (lastp - ?p)) \<le> cmod (loc - lastp) + cmod (lastp - ?p)"
            by (rule norm_triangle_ineq)
          then have "cmod (loc - ?p) \<le> cmod (loc - lastp) + cmod (lastp - ?p)"
            by simp
          with chord have chord': "cmod (loc - ?p) \<le> old + ?len" by linarith
          from False have old': "old + ?len < D" by simp
          from 1(1)[OF rec] chord' D pos old' show ?thesis by blast
        qed
      qed
    qed
  qed
qed


lemma case_list_nonempty: "xs \<noteq> [] \<Longrightarrow> (case xs of [] \<Rightarrow> a | x # ys \<Rightarrow> b) = b"
  by (cases xs) simp_all

lemma square_next_forward_second:
  "getNext ((LineIterator_init LineIteratorForward True 5 square_layer)
             \<lparr>firstLineIndex := Some 5, lineIndex := 6\<rparr>) =
     Some (Inr ''G1 X0 Y0'',
           (LineIterator_init LineIteratorForward True 5 square_layer)
             \<lparr>firstLineIndex := Some 5, lineIndex := 7\<rparr>)"
  by (simp add: getNext_def LineIterator_init_def square_layer_def gline_def
      LineIteratorForward_getNext.simps getitem_def getIndexJustAfterActivate_def)

lemma near_next_exhausted:
  "getNext (LineIterator_init LineIteratorForward False 1 near_layer) =
     Some (Inl StopIteration, LineIterator_init LineIteratorForward False 1 near_layer)"
  by (simp add: getNext_def LineIterator_init_def near_layer_def gline_def
      LineIteratorForward_getNext.simps)

lemma square_point_5:
  "oldLocation s = Some v \<Longrightarrow>
   getLocationFromSplitLine float_decimal (oldLocation s)
     (getSplitLineBeforeBracketSemicolon ''G1 X0 Y1'') = Inr (Vector3 0 1 (z_of v))"
  by (simp add: parse_defs)

lemma square_point_6:
  "oldLocation s = Some v \<Longrightarrow>
   getLocationFromSplitLine float_decimal (oldLocation s)
     (getSplitLineBeforeBracketSemicolon ''G1 X0 Y0'') = Inr (Vector3 0 0 (z_of v))"
  by (simp add: parse_defs)

lemma square_walk_second:
  assumes "oldLocation s = Some v" "stretchFromDistance s = Some (3 / 2)"
  shows "getRelativeStretch_loop float_decimal s (Complex 1 1)
     ((LineIterator_init LineIteratorForward True 5 square_layer)
             \<lparr>firstLineIndex := Some 5, lineIndex := 6\<rparr>)
     (Complex 0 1) 1 (Complex 0 1) 1 = Some (Inr (Complex (2 / 3) (1 / 3)))"
  apply (subst getRelativeStretch_loop.simps)
  apply (simp add: square_next_forward_second assms parse_defs
      dropAxis_def cmod_def complex_eq_iff Let_def)
  done

lemma square_walk_first:
  assumes "oldLocation s = Some v" "stretchFromDistance s = Some (3 / 2)"
  shows "getRelativeStretch_loop float_decimal s (Complex 1 1)
     (LineIterator_init LineIteratorForward True 5 square_layer)
     (Complex 1 1) 0 (Complex 1 1) 0 = Some (Inr (Complex (2 / 3) (1 / 3)))"
  apply (subst getRelativeStretch_loop.simps)
  apply (simp add: square_next_forward assms parse_defs
      dropAxis_def cmod_def Let_def square_walk_second[OF assms, simplified])
  done


text \<open>
  C5, as stated, fails.  From the corner (1, 1) of the square with the lookahead distance 1.5, the
  forward walk passes (0, 1) and reaches the distance half way down the next side, at (0, 0.5):
  the estimate is ((1, 1) - (0, 0.5)) / 1.5 = (2/3, 1/3), of magnitude less than 1.
\<close>

theorem tangent_estimate_not_unit:
  "getRelativeStretch float_decimal lookahead_self (Complex 1 1)
     (LineIterator_init LineIteratorForward True 5 square_layer)
     = Some (Inr (Complex (2 / 3) (1 / 3)))
   \<and> cmod (Complex (2 / 3) (1 / 3)) \<noteq> 1"
proof -
  have D: "stretchFromDistance lookahead_self = Some (3 / 2)"
    and O: "oldLocation lookahead_self = Some (Vector3 1 0 (2 / 10))"
    by (simp_all add: lookahead_self_def square_self_def)
  have "cmod (Complex (2 / 3) (1 / 3)) \<noteq> 1"
    by (simp add: cmod_def power2_eq_square)
  with square_walk_first[OF O D] show ?thesis
    by (simp add: getRelativeStretch_def)
qed

lemma ratio_le_one: "0 < D \<Longrightarrow> x \<le> D \<Longrightarrow> x / D \<le> (1::real)"
  by simp

lemma path_length_nonneg: "0 \<le> path_length start ps"
  by (induction ps arbitrary: start) simp_all

lemma chord_le_path: "cmod (loc - last (start # ps)) \<le> cmod (loc - start) + path_length start ps"
proof (induction ps arbitrary: start)
  case Nil
  then show ?case by simp
next
  case (Cons p ps)
  have "cmod ((loc - start) + (start - p)) \<le> cmod (loc - start) + cmod (start - p)"
    by (rule norm_triangle_ineq)
  then have "cmod (loc - p) \<le> cmod (loc - start) + cmod (start - p)" by simp
  with Cons[of p] show ?case by simp
qed

lemma getRelativeStretch_loop_continue:
  assumes nxt: "getNext it = Some (Inr line, it')"
    and ne: "getSplitLineBeforeBracketSemicolon line \<noteq> []"
    and pt: "getLocationFromSplitLine float_of (oldLocation self)
               (getSplitLineBeforeBracketSemicolon line) = Inr point"
    and D: "stretchFromDistance self = Some D"
    and short: "old + cmod (lastp - dropAxis point) < D"
  shows "getRelativeStretch_loop float_of self loc it lastp old lastp old =
         getRelativeStretch_loop float_of self loc it' (dropAxis point)
           (old + cmod (lastp - dropAxis point)) (dropAxis point)
           (old + cmod (lastp - dropAxis point))"
  using short
  by (subst getRelativeStretch_loop.simps)
     (simp add: nxt case_list_nonempty[OF ne] pt D Let_def)

lemma getRelativeStretch_loop_reach:
  assumes nxt: "getNext it = Some (Inr line, it')"
    and ne: "getSplitLineBeforeBracketSemicolon line \<noteq> []"
    and pt: "getLocationFromSplitLine float_of (oldLocation self)
               (getSplitLineBeforeBracketSemicolon line) = Inr point"
    and D: "stretchFromDistance self = Some D" and pos: "0 < D"
    and below: "old < D"
    and reach: "D \<le> old + cmod (lastp - dropAxis point)"
  shows "getRelativeStretch_loop float_of self loc it lastp old lastp old =
         Some (Inr ((loc - (lastp + of_real ((D - old) / cmod (lastp - dropAxis point))
                                     * (dropAxis point - lastp))) / of_real D))"
proof -
  from below reach have len: "cmod (lastp - dropAxis point) \<noteq> 0" by auto
  have "getRelativeStretch_loop float_of self loc it lastp old lastp old =
         Some (Inr ((loc - (of_real ((D - old) / cmod (lastp - dropAxis point)) * dropAxis point
                          + of_real (1 - (D - old) / cmod (lastp - dropAxis point)) * lastp))
                  / of_real D))"
    using reach len pos
    by (subst getRelativeStretch_loop.simps)
       (simp add: nxt case_list_nonempty[OF ne] pt D Let_def)
  then show ?thesis unfolding interpolated_point(1)[OF len below] .
qed

lemma walked_points_Suc:
  assumes "walked_points float_of self (Suc n) it = Some (ps, rest)"
  obtains line it' point ps' where
    "getNext it = Some (Inr line, it')"
    "getSplitLineBeforeBracketSemicolon line \<noteq> []"
    "getLocationFromSplitLine float_of (oldLocation self)
       (getSplitLineBeforeBracketSemicolon line) = Inr point"
    "walked_points float_of self n it' = Some (ps', rest)"
    "ps = dropAxis point # ps'"
  using assms
  by (auto split: option.splits sum.splits list.splits prod.splits)

lemma getRelativeStretch_loop_walk:
  assumes D: "stretchFromDistance self = Some D"
    and walk: "walked_points float_of self n it = Some (ps, rest)"
    and short: "old + path_length lastp ps < D"
  shows "getRelativeStretch_loop float_of self loc it lastp old lastp old =
         getRelativeStretch_loop float_of self loc rest (last (lastp # ps))
           (old + path_length lastp ps) (last (lastp # ps)) (old + path_length lastp ps)"
  using walk short
proof (induction n arbitrary: it ps lastp old)
  case 0
  then show ?case by simp
next
  case (Suc n)
  from Suc.prems(1) obtain line it' point ps' where
    nxt: "getNext it = Some (Inr line, it')"
    and ne: "getSplitLineBeforeBracketSemicolon line \<noteq> []"
    and pt: "getLocationFromSplitLine float_of (oldLocation self)
       (getSplitLineBeforeBracketSemicolon line) = Inr point"
    and rest: "walked_points float_of self n it' = Some (ps', rest)"
    and ps: "ps = dropAxis point # ps'"
    by (rule walked_points_Suc)
  let ?p = "dropAxis point"
  from Suc.prems(2) have tot: "(old + cmod (lastp - ?p)) + path_length ?p ps' < D"
    by (simp add: ps)
  with path_length_nonneg[of ?p ps'] have short1: "old + cmod (lastp - ?p) < D" by linarith
  have "getRelativeStretch_loop float_of self loc it lastp old lastp old =
        getRelativeStretch_loop float_of self loc it' ?p (old + cmod (lastp - ?p))
           ?p (old + cmod (lastp - ?p))"
    by (rule getRelativeStretch_loop_continue[OF nxt ne pt D short1])
  also have "\<dots> = getRelativeStretch_loop float_of self loc rest (last (?p # ps'))
           ((old + cmod (lastp - ?p)) + path_length ?p ps') (last (?p # ps'))
           ((old + cmod (lastp - ?p)) + path_length ?p ps')"
    by (rule Suc.IH[OF rest tot])
  finally show ?case by (simp add: ps add.assoc)
qed

lemma near_next_after:
  "getNext ((LineIterator_init LineIteratorForward False 0 near_layer)
              \<lparr>firstLineIndex := Some 0, lineIndex := 1\<rparr>) =
     Some (Inl StopIteration,
           (LineIterator_init LineIteratorForward False 0 near_layer)
              \<lparr>firstLineIndex := Some 0, lineIndex := 1\<rparr>)"
  by (simp add: getNext_def LineIterator_init_def near_layer_def gline_def
      LineIteratorForward_getNext.simps)

lemma square_walked_one:
  "walked_points float_decimal lookahead_self (Suc 0)
     (LineIterator_init LineIteratorForward True 5 square_layer) =
   Some ([Complex 0 1],
         (LineIterator_init LineIteratorForward True 5 square_layer)
             \<lparr>firstLineIndex := Some 5, lineIndex := 6\<rparr>)"
  by (simp add: square_next_forward parse_defs dropAxis_def lookahead_self_def square_self_def)

lemma near_walked_one:
  "walked_points float_decimal lookahead_self (Suc 0)
     (LineIterator_init LineIteratorForward False 0 near_layer) =
   Some ([Complex 1 0],
         (LineIterator_init LineIteratorForward False 0 near_layer)
              \<lparr>firstLineIndex := Some 0, lineIndex := 1\<rparr>)"
  by (simp add: near_next parse_defs dropAxis_def lookahead_self_def square_self_def)

text \<open>
  C5, amended.  Let the first \<open>n\<close> calls of \<open>getNext\<close> give the points \<open>points\<close>, the path from
  the location through them being shorter than the lookahead distance.  If the iterator is then
  exhausted, \<open>getRelativeStretch\<close> returns the unit vector from the last of the points toward the
  location, or zero when that point is the location (as it is when there are no points).  If
  the iterator then gives a point with which the path reaches the lookahead distance,
  \<open>getRelativeStretch\<close> returns the vector from \<open>totalPoint\<close> to the location divided by the
  lookahead distance, where \<open>totalPoint\<close> lies on the last segment at exactly the lookahead
  distance along the path; the magnitude of the estimate is the distance from \<open>totalPoint\<close> to
  the location over the lookahead distance, which is at most 1.
\<close>

theorem tangent_estimate:
  assumes D: "stretchFromDistance self = Some fromDistance" and pos: "0 < fromDistance"
    and walk: "walked_points float_of self n lineIterator = Some (points, rest)"
    and below: "path_length locationComplex points < fromDistance"
  shows "(\<forall>it'. getNext rest = Some (Inl StopIteration, it') \<longrightarrow>
            getRelativeStretch float_of self locationComplex lineIterator =
              Some (Inr (if locationComplex = last (locationComplex # points) then 0
                         else (locationComplex - last (locationComplex # points))
                              / of_real (cmod (locationComplex - last (locationComplex # points))))))
     \<and> (\<forall>line it' point.
           getNext rest = Some (Inr line, it') \<and>
           getSplitLineBeforeBracketSemicolon line \<noteq> [] \<and>
           getLocationFromSplitLine float_of (oldLocation self)
             (getSplitLineBeforeBracketSemicolon line) = Inr point \<and>
           fromDistance \<le> path_length locationComplex points
                            + cmod (last (locationComplex # points) - dropAxis point) \<longrightarrow>
           (let lastPoint = last (locationComplex # points);
                segment = cmod (lastPoint - dropAxis point);
                totalPoint = lastPoint
                  + of_real ((fromDistance - path_length locationComplex points) / segment)
                      * (dropAxis point - lastPoint)
            in getRelativeStretch float_of self locationComplex lineIterator =
                 Some (Inr ((locationComplex - totalPoint) / of_real fromDistance))
               \<and> cmod (totalPoint - lastPoint) = fromDistance - path_length locationComplex points
               \<and> cmod ((locationComplex - totalPoint) / of_real fromDistance)
                   = cmod (locationComplex - totalPoint) / fromDistance
               \<and> cmod ((locationComplex - totalPoint) / of_real fromDistance) \<le> 1))"
proof (intro conjI allI impI)
  let ?q = "last (locationComplex # points)"
  let ?L = "path_length locationComplex points"
  have head: "getRelativeStretch float_of self locationComplex lineIterator =
      getRelativeStretch_loop float_of self locationComplex rest ?q ?L ?q ?L"
    unfolding getRelativeStretch_def
    using getRelativeStretch_loop_walk[OF D walk, of 0 locationComplex locationComplex] below
    by simp
  {
    fix it'
    assume "getNext rest = Some (Inl StopIteration, it')"
    then show "getRelativeStretch float_of self locationComplex lineIterator =
              Some (Inr (if locationComplex = ?q then 0
                         else (locationComplex - ?q) / of_real (cmod (locationComplex - ?q))))"
      unfolding head by (rule getRelativeStretch_loop_stop)
  next
    fix line it' point
    assume a: "getNext rest = Some (Inr line, it') \<and>
           getSplitLineBeforeBracketSemicolon line \<noteq> [] \<and>
           getLocationFromSplitLine float_of (oldLocation self)
             (getSplitLineBeforeBracketSemicolon line) = Inr point \<and>
           fromDistance \<le> ?L + cmod (?q - dropAxis point)"
    let ?p = "dropAxis point"
    let ?P = "?q + of_real ((fromDistance - ?L) / cmod (?q - ?p)) * (?p - ?q)"
    from a have nxt: "getNext rest = Some (Inr line, it')"
      and ne: "getSplitLineBeforeBracketSemicolon line \<noteq> []"
      and pt: "getLocationFromSplitLine float_of (oldLocation self)
             (getSplitLineBeforeBracketSemicolon line) = Inr point"
      and reach: "fromDistance \<le> ?L + cmod (?q - ?p)" by simp_all
    from below reach have len: "cmod (?q - ?p) \<noteq> 0" by auto
    have r: "getRelativeStretch float_of self locationComplex lineIterator =
                 Some (Inr ((locationComplex - ?P) / of_real fromDistance))"
      unfolding head by (rule getRelativeStretch_loop_reach[OF nxt ne pt D pos below reach])
    have i: "cmod (?P - ?q) = fromDistance - ?L"
      by (rule interpolated_point(2)[OF len below])
    have n: "cmod ((locationComplex - ?P) / of_real fromDistance)
                   = cmod (locationComplex - ?P) / fromDistance"
      using pos by (simp add: norm_divide)
    have chord: "cmod (locationComplex - ?q) \<le> ?L"
      using chord_le_path[of locationComplex locationComplex points] by simp
    have "cmod (locationComplex - ?P) \<le> fromDistance"
      by (rule interpolated_bound[OF chord below len])
    then have b: "cmod ((locationComplex - ?P) / of_real fromDistance) \<le> 1"
      unfolding n by (rule ratio_le_one[OF pos])
    show "let lastPoint = last (locationComplex # points);
                segment = cmod (lastPoint - dropAxis point);
                totalPoint = lastPoint
                  + of_real ((fromDistance - path_length locationComplex points) / segment)
                      * (dropAxis point - lastPoint)
            in getRelativeStretch float_of self locationComplex lineIterator =
                 Some (Inr ((locationComplex - totalPoint) / of_real fromDistance))
               \<and> cmod (totalPoint - lastPoint) = fromDistance - path_length locationComplex points
               \<and> cmod ((locationComplex - totalPoint) / of_real fromDistance)
                   = cmod (locationComplex - totalPoint) / fromDistance
               \<and> cmod ((locationComplex - totalPoint) / of_real fromDistance) \<le> 1"
      unfolding Let_def by (intro conjI r i n b)
  }
qed

theorem tangent_estimate_witness:
  "getRelativeStretch float_decimal lookahead_self (Complex 1 1)
     (LineIterator_init LineIteratorForward True 5 square_layer)
     = Some (Inr ((Complex 1 1 - Complex 0 (1 / 2)) / of_real (3 / 2)))
   \<and> cmod (Complex 0 (1 / 2) - Complex 0 1) = 3 / 2 - 1
   \<and> cmod ((Complex 1 1 - Complex 0 (1 / 2)) / of_real (3 / 2)) \<le> 1
   \<and> getRelativeStretch float_decimal lookahead_self (Complex 2 0)
        (LineIterator_init LineIteratorForward False 0 near_layer)
      = Some (Inr (Complex 1 0))"
proof -
  let ?it5 = "LineIterator_init LineIteratorForward True 5 square_layer"
  let ?it6 = "?it5\<lparr>firstLineIndex := Some 5, lineIndex := 6\<rparr>"
  let ?it7 = "?it5\<lparr>firstLineIndex := Some 5, lineIndex := 7\<rparr>"
  let ?near = "LineIterator_init LineIteratorForward False 0 near_layer"
  let ?near1 = "?near\<lparr>firstLineIndex := Some 0, lineIndex := 1\<rparr>"
  have D: "stretchFromDistance lookahead_self = Some (3 / 2)"
    and O: "oldLocation lookahead_self = Some (Vector3 1 0 (2 / 10))"
    by (simp_all add: lookahead_self_def square_self_def)
  have pos: "(0::real) < 3 / 2" by simp
  \<comment> \<open>the walk round the corner of the square: one point, then the distance is reached\<close>
  have b1: "path_length (Complex 1 1) [Complex 0 1] < 3 / 2" by (simp add: cmod_def)
  note square = tangent_estimate[OF D pos square_walked_one b1]
  have p6: "getLocationFromSplitLine float_decimal (oldLocation lookahead_self)
     (getSplitLineBeforeBracketSemicolon ''G1 X0 Y0'') = Inr (Vector3 0 0 (2 / 10))"
    using square_point_6[OF O] by simp
  have ne6: "getSplitLineBeforeBracketSemicolon ''G1 X0 Y0'' \<noteq> []"
    by (simp add: parse_defs)
  have reach6: "3 / 2 \<le> path_length (Complex 1 1) [Complex 0 1]
                  + cmod (last [Complex 1 1, Complex 0 1] - dropAxis (Vector3 0 0 (2 / 10)))"
    by (simp add: dropAxis_def cmod_def)
  have inst: "let lastPoint = last [Complex 1 1, Complex 0 1];
                segment = cmod (lastPoint - dropAxis (Vector3 0 0 (2 / 10)));
                totalPoint = lastPoint
                  + of_real ((3 / 2 - path_length (Complex 1 1) [Complex 0 1]) / segment)
                      * (dropAxis (Vector3 0 0 (2 / 10)) - lastPoint)
            in getRelativeStretch float_decimal lookahead_self (Complex 1 1) ?it5 =
                 Some (Inr ((Complex 1 1 - totalPoint) / of_real (3 / 2)))
               \<and> cmod (totalPoint - lastPoint) = 3 / 2 - path_length (Complex 1 1) [Complex 0 1]
               \<and> cmod ((Complex 1 1 - totalPoint) / of_real (3 / 2))
                   = cmod (Complex 1 1 - totalPoint) / (3 / 2)
               \<and> cmod ((Complex 1 1 - totalPoint) / of_real (3 / 2)) \<le> 1"
    by (rule mp[OF square[THEN conjunct2, THEN spec[of _ "''G1 X0 Y0''"],
                   THEN spec[of _ ?it7], THEN spec[of _ "Vector3 0 0 (2 / 10)"]]])
       (intro conjI square_next_forward_second ne6 p6 reach6)
  have tp: "last [Complex 1 1, Complex 0 1]
              + of_real ((3 / 2 - path_length (Complex 1 1) [Complex 0 1])
                           / cmod (last [Complex 1 1, Complex 0 1] - dropAxis (Vector3 0 0 (2 / 10))))
                  * (dropAxis (Vector3 0 0 (2 / 10)) - last [Complex 1 1, Complex 0 1])
            = Complex 0 (1 / 2)"
    by (simp add: dropAxis_def cmod_def complex_eq_iff)
  have pl: "path_length (Complex 1 1) [Complex 0 1] = 1" by (simp add: cmod_def)
  have l: "last [Complex 1 1, Complex 0 1] = Complex 0 1" by simp
  from inst have first:
    "getRelativeStretch float_decimal lookahead_self (Complex 1 1) ?it5
       = Some (Inr ((Complex 1 1 - Complex 0 (1 / 2)) / of_real (3 / 2)))
     \<and> cmod (Complex 0 (1 / 2) - Complex 0 1) = 3 / 2 - 1
     \<and> cmod ((Complex 1 1 - Complex 0 (1 / 2)) / of_real (3 / 2)) \<le> 1"
    unfolding Let_def tp unfolding pl l by blast
  \<comment> \<open>a walk that ends before the distance is reached\<close>
  have b2: "path_length (Complex 2 0) [Complex 1 0] < 3 / 2" by (simp add: cmod_def)
  note near = tangent_estimate[OF D pos near_walked_one b2]
  have inst2: "getRelativeStretch float_decimal lookahead_self (Complex 2 0) ?near =
              Some (Inr (if Complex 2 0 = last [Complex 2 0, Complex 1 0] then 0
                         else (Complex 2 0 - last [Complex 2 0, Complex 1 0])
                              / of_real (cmod (Complex 2 0 - last [Complex 2 0, Complex 1 0]))))"
    by (rule mp[OF near[THEN conjunct1, THEN spec[of _ ?near1]]]) (rule near_next_after)
  have u: "(if Complex 2 0 = last [Complex 2 0, Complex 1 0] then 0
                         else (Complex 2 0 - last [Complex 2 0, Complex 1 0])
                              / of_real (cmod (Complex 2 0 - last [Complex 2 0, Complex 1 0])))
           = Complex 1 0"
    by (simp add: cmod_def complex_eq_iff)
  from first inst2[unfolded u] show ?thesis by blast
qed


section \<open>Traversal of a closed loop\<close>

lemma closed_loop_layout:
  assumes "closed_loop ls s N"
  shows "loop_layout ls (int s) (int (s + N + 1))"
proof -
  from assms have ga: "list_all (\<lambda>k. command (ls ! k) = ''G1'') [s + 1 ..< s + N + 1]"
    and ca: "list_all (\<lambda>k. command (ls ! k) = ''M101'' \<longrightarrow>
                       list_ex (\<lambda>m. command (ls ! m) = ''M103'') [k + 1 ..< s]) [0 ..< s]"
    unfolding closed_loop_def by blast+
  have g: "\<forall>k. s < k \<and> k < s + N + 1 \<longrightarrow> command (ls ! k) = ''G1''"
  proof (intro allI impI)
    fix k assume "s < k \<and> k < s + N + 1"
    then have "k \<in> set [s + 1 ..< s + N + 1]" by auto
    with ga show "command (ls ! k) = ''G1''" unfolding list_all_iff by blast
  qed
  have c: "\<forall>k. k < s \<and> command (ls ! k) = ''M101'' \<longrightarrow>
      (\<exists>m. k < m \<and> m < s \<and> command (ls ! m) = ''M103'')"
  proof (intro allI impI)
    fix k assume a: "k < s \<and> command (ls ! k) = ''M101''"
    then have "k \<in> set [0 ..< s]" by auto
    with ca a have "list_ex (\<lambda>m. command (ls ! m) = ''M103'') [k + 1 ..< s]"
      unfolding list_all_iff by blast
    then obtain m where "m \<in> set [k + 1 ..< s]" "command (ls ! m) = ''M103''"
      unfolding list_ex_iff by blast
    then have "k < m \<and> m < s \<and> command (ls ! m) = ''M103''" by auto
    then show "\<exists>m. k < m \<and> m < s \<and> command (ls ! m) = ''M103''" by blast
  qed
  have g': "\<forall>k. int s < k \<and> k < int (s + N + 1) \<longrightarrow> command (ls ! nat k) = ''G1''"
  proof (intro allI impI)
    fix k :: int assume "int s < k \<and> k < int (s + N + 1)"
    then have "s < nat k \<and> nat k < s + N + 1" by linarith
    with g show "command (ls ! nat k) = ''G1''" by blast
  qed
  have c': "\<forall>k. 0 \<le> k \<and> k < int s \<and> command (ls ! nat k) = ''M101'' \<longrightarrow>
             (\<exists>m. k < m \<and> m < int s \<and> command (ls ! nat m) = ''M103'')"
  proof (intro allI impI)
    fix k :: int assume a: "0 \<le> k \<and> k < int s \<and> command (ls ! nat k) = ''M101''"
    then have "nat k < s \<and> command (ls ! nat k) = ''M101''" by linarith
    with c obtain m where m: "nat k < m" "m < s" "command (ls ! m) = ''M103''" by blast
    from m a have "k < int m \<and> int m < int s \<and> command (ls ! nat (int m)) = ''M103''" by simp
    then show "\<exists>m. k < m \<and> m < int s \<and> command (ls ! nat m) = ''M103''" by blast
  qed
  from assms g' c' show ?thesis
    by (simp add: loop_layout_def closed_loop_def nat_add_distrib)
qed

lemma first_raise_within_Suc:
  "first_raise_within (Suc n) c = first_raise_after n (getNext c)"
  by (simp add: first_raise_after_def)

lemma first_raise_after_mono:
  "first_raise_after n r = Some (Some e) \<Longrightarrow> n \<le> m \<Longrightarrow> first_raise_after m r = Some (Some e)"
  and first_raise_within_mono:
  "first_raise_within n c = Some (Some e) \<Longrightarrow> n \<le> m \<Longrightarrow> first_raise_within m c = Some (Some e)"
proof -
  have w: "\<And>c m. first_raise_within n c = Some (Some e) \<Longrightarrow> n \<le> m
            \<Longrightarrow> first_raise_within m c = Some (Some e)"
  proof (induction n)
    case 0
    then show ?case by simp
  next
    case (Suc n)
    from Suc.prems(2) obtain m' where m: "m = Suc m'" "n \<le> m'" by (cases m) auto
    from Suc.prems(1) Suc.IH[OF _ m(2)] show ?case
      unfolding m(1) by (auto split: option.splits sum.splits prod.splits)
  qed
  show "first_raise_within n c = Some (Some e) \<Longrightarrow> n \<le> m \<Longrightarrow> first_raise_within m c = Some (Some e)"
    by (rule w)
  show "first_raise_after n r = Some (Some e) \<Longrightarrow> n \<le> m \<Longrightarrow> first_raise_after m r = Some (Some e)"
    using w by (auto simp: first_raise_after_def split: option.splits sum.splits prod.splits)
qed

subsection \<open>The forward iterator inside a closed loop\<close>

lemma forward_move:
  assumes L: "loop_layout ls s e" and k: "s < k" "k < e" and f: "f \<noteq> Some k"
  shows "LineIteratorForward_getNext (cursor_at LineIteratorForward ls k f) =
           Some (Inr (raw (ls ! nat k)),
                 cursor_at LineIteratorForward ls (k + 1) (if f = None then Some k else f))"
proof -
  from L k have r: "0 \<le> k" "k < int (length ls)" and g: "command (ls ! nat k) = ''G1''"
    by (auto simp: loop_layout_def)
  show ?thesis
    using f r g
    by (subst LineIteratorForward_getNext.simps)
       (auto simp: cursor_at_def Let_def getitem_in_range)
qed

lemma forward_wrap:
  assumes L: "loop_layout ls s e" and f: "f \<noteq> Some e"
  shows "LineIteratorForward_getNext (cursor_at LineIteratorForward ls e f) =
         LineIteratorForward_getNext
           (cursor_at LineIteratorForward ls (s + 1) (if f = None then Some e else f))"
proof -
  from L have r: "0 \<le> e" "e < int (length ls)" and m: "command (ls ! nat e) = ''M103''"
    by (auto simp: loop_layout_def)
  have "getIndexJustAfterActivate_from ls (e - 1) = Inr (s + 1)"
    using L by (intro getIndexJustAfterActivate_from_found) (auto simp: loop_layout_def)
  then have a: "\<And>f'. getIndexJustAfterActivate (cursor_at LineIteratorForward ls e f') = Inr (s + 1)"
    by (simp add: getIndexJustAfterActivate_def cursor_at_def)
  show ?thesis
    using f r m a[unfolded cursor_at_def]
    by (subst LineIteratorForward_getNext.simps)
       (auto simp: cursor_at_def Let_def getitem_in_range)
qed

lemma forward_stop:
  assumes "k < int (length ls)"
  shows "LineIteratorForward_getNext (cursor_at LineIteratorForward ls k (Some k)) =
           Some (Inl StopIteration, cursor_at LineIteratorForward ls k (Some k))"
  using assms
  by (subst LineIteratorForward_getNext.simps) (simp add: cursor_at_def)

lemma getNext_forward:
  "getNext (cursor_at LineIteratorForward ls k f) =
     LineIteratorForward_getNext (cursor_at LineIteratorForward ls k f)"
  by (simp add: getNext_def cursor_at_def)


lemma first_raise_after_line:
  "first_raise_after (Suc n) (Some (Inr line, c)) = first_raise_after n (getNext c)"
  by (simp add: first_raise_after_def)

lemma first_raise_after_stop:
  "first_raise_after n (Some (Inl e, c)) = Some (Some e)"
  by (simp add: first_raise_after_def)

lemma forward_after_start:
  assumes L: "loop_layout ls s e" and j: "j \<le> e"
  shows "s < k \<Longrightarrow> k \<le> j \<Longrightarrow>
         first_raise_after (nat (j - k))
           (LineIteratorForward_getNext (cursor_at LineIteratorForward ls k (Some j)))
         = Some (Some StopIteration)"
proof (induction "nat (j - k)" arbitrary: k)
  case 0
  then have "k = j" by simp
  moreover from L j have "j < int (length ls)" by (simp add: loop_layout_def)
  ultimately show ?case by (simp add: forward_stop first_raise_after_stop)
next
  case (Suc n)
  from Suc.hyps(2) Suc.prems j have k: "s < k" "k < e" "Some j \<noteq> Some k" by auto
  from Suc.hyps(2) have n: "n = nat (j - (k + 1))" by linarith
  have "first_raise_after (Suc n)
           (LineIteratorForward_getNext (cursor_at LineIteratorForward ls k (Some j)))
      = first_raise_after n
           (LineIteratorForward_getNext (cursor_at LineIteratorForward ls (k + 1) (Some j)))"
    by (simp add: forward_move[OF L k] first_raise_after_line getNext_forward)
  also have "\<dots> = Some (Some StopIteration)"
    using Suc.hyps(1)[OF n] Suc.hyps(2) Suc.prems unfolding n by simp
  finally show ?case using Suc.hyps(2) by simp
qed

lemma forward_before_wrap:
  assumes L: "loop_layout ls s e" and j: "s < j"
  shows "j < k \<Longrightarrow> k \<le> e \<Longrightarrow>
         first_raise_after (nat (e - k) + nat (j - s - 1))
           (LineIteratorForward_getNext (cursor_at LineIteratorForward ls k (Some j)))
         = Some (Some StopIteration)"
proof (induction "nat (e - k)" arbitrary: k)
  case 0
  then have ke: "k = e" by simp
  with 0 have f: "Some j \<noteq> Some e" by simp
  have je: "j \<le> e" using 0 by simp
  have "s < s + 1" "s + 1 \<le> j" using j by simp_all
  from forward_after_start[OF L je this]
  show ?case using forward_wrap[OF L f] ke by (simp add: algebra_simps)
next
  case (Suc n)
  from Suc.hyps(2) Suc.prems j have k: "s < k" "k < e" "Some j \<noteq> Some k" by auto
  from Suc.hyps(2) have n: "n = nat (e - (k + 1))" by linarith
  have "first_raise_after (Suc (n + nat (j - s - 1)))
           (LineIteratorForward_getNext (cursor_at LineIteratorForward ls k (Some j)))
      = first_raise_after (n + nat (j - s - 1))
           (LineIteratorForward_getNext (cursor_at LineIteratorForward ls (k + 1) (Some j)))"
    by (simp add: forward_move[OF L k] first_raise_after_line getNext_forward)
  also have "\<dots> = Some (Some StopIteration)"
    using Suc.hyps(1)[OF n] Suc.hyps(2) Suc.prems unfolding n by simp
  finally show ?case using Suc.hyps(2)[symmetric] by simp
qed

lemma forward_exhausts:
  assumes L: "loop_layout ls s e" and j: "s < j" "j \<le> e"
  shows "first_raise_within (nat (e - s)) (cursor_at LineIteratorForward ls j None)
         = Some (Some StopIteration)"
proof -
  from j have N: "nat (e - s) = Suc (nat (e - s - 1))" by linarith
  show ?thesis
  proof (cases "j = e")
    case True
    have "s < s + 1" "s + 1 \<le> e" using j by simp_all
    from forward_after_start[OF L order_refl this]
    show ?thesis
      unfolding N first_raise_within_Suc getNext_forward True
      using forward_wrap[OF L, of None] by (simp add: algebra_simps)
  next
    case False
    with j have k: "s < j" "j < e" "None \<noteq> Some j" by simp_all
    from j False have m: "nat (e - s - 1) = Suc (nat (e - (j + 1)) + nat (j - s - 1))" by linarith
    have "j < j + 1" "j + 1 \<le> e" using j False by simp_all
    from forward_before_wrap[OF L j(1) this]
    show ?thesis
      unfolding N first_raise_within_Suc getNext_forward m
      by (simp add: forward_move[OF L k] first_raise_after_line getNext_forward)
  qed
qed


subsection \<open>The backward iterator inside a closed loop\<close>

lemma deactivate_scan:
  "0 \<le> a \<Longrightarrow> a \<le> e \<Longrightarrow> e < int (length ls) \<Longrightarrow> command (ls ! nat e) = ''M103'' \<Longrightarrow>
   \<forall>m. a \<le> m \<and> m < e \<longrightarrow> command (ls ! nat m) \<noteq> ''M103'' \<Longrightarrow>
   getIndexBeforeNextDeactivate_from ls a = Inr (e - 2)"
proof (induction ls a rule: getIndexBeforeNextDeactivate_from.induct)
  case (1 ls a)
  from "1.prems" have g: "getitem ls a = Inr (ls ! nat a)" by (simp add: getitem_in_range)
  show ?case
  proof (cases "a = e")
    case True
    with "1.prems" g show ?thesis by (subst getIndexBeforeNextDeactivate_from.simps) simp
  next
    case False
    with "1.prems" have ne: "command (ls ! nat a) \<noteq> ''M103''" and lt: "a < int (length ls)"
      by auto
    have "getIndexBeforeNextDeactivate_from ls (a + 1) = Inr (e - 2)"
      using "1.IH"[OF lt g ne] "1.prems" False by simp
    with g ne lt show ?thesis by (subst getIndexBeforeNextDeactivate_from.simps) simp
  qed
qed

lemma wrap_target:
  assumes L: "loop_layout ls s e" and a: "0 \<le> a" "a \<le> e"
    and q: "\<forall>m. a \<le> m \<and> m < s \<longrightarrow> command (ls ! nat m) \<noteq> ''M103''"
  shows "getIndexBeforeNextDeactivate_from ls a = Inr (e - 2)"
proof -
  have "\<forall>m. a \<le> m \<and> m < e \<longrightarrow> command (ls ! nat m) \<noteq> ''M103''"
  proof (intro allI impI)
    fix m assume m: "a \<le> m \<and> m < e"
    consider "m < s" | "m = s" | "s < m" by linarith
    then show "command (ls ! nat m) \<noteq> ''M103''"
    proof cases
      case 1 with q m show ?thesis by blast
    next
      case 2 with L show ?thesis by (simp add: loop_layout_def)
    next
      case 3 with L m have "command (ls ! nat m) = ''G1''" by (simp add: loop_layout_def)
      then show ?thesis by simp
    qed
  qed
  with L a show ?thesis by (intro deactivate_scan) (auto simp: loop_layout_def)
qed

lemma in_loop_not_before:
  "loop_layout ls s e \<Longrightarrow> s < a \<Longrightarrow> a \<le> e \<Longrightarrow> isBeforeExtrusion_from ls a cnt = Inr False"
proof (induction ls a cnt rule: isBeforeExtrusion_from.induct)
  case (1 ls a cnt)
  from "1.prems" have r: "0 \<le> a" "a < int (length ls)" by (auto simp: loop_layout_def)
  then have g: "getitem ls a = Inr (ls ! nat a)" by (simp add: getitem_in_range)
  show ?case
  proof (cases "a = e")
    case True
    with "1.prems" have "command (ls ! nat a) = ''M103''" by (simp add: loop_layout_def)
    with g r show ?thesis by (subst isBeforeExtrusion_from.simps) (simp add: Let_def)
  next
    case False
    with "1.prems" have c: "command (ls ! nat a) = ''G1''" by (simp add: loop_layout_def)
    have "isBeforeExtrusion_from ls (a + 1) (cnt + 1) = Inr False"
      using "1.IH"[OF r(2) g refl] c "1.prems" False by simp
    with g r c show ?thesis by (subst isBeforeExtrusion_from.simps) (simp add: Let_def)
  qed
qed

lemma approach_scan:
  "loop_layout ls s e \<Longrightarrow> 0 \<le> a \<Longrightarrow> a \<le> s \<Longrightarrow>
   \<forall>m. a \<le> m \<and> m < s \<longrightarrow> command (ls ! nat m) \<noteq> ''G1'' \<and> command (ls ! nat m) \<noteq> ''M101''
        \<and> command (ls ! nat m) \<noteq> ''M103'' \<Longrightarrow>
   isBeforeExtrusion_from ls a cnt = Inr (cnt > 0)"
proof (induction ls a cnt rule: isBeforeExtrusion_from.induct)
  case (1 ls a cnt)
  from "1.prems" have r: "0 \<le> a" "a < int (length ls)" by (auto simp: loop_layout_def)
  then have g: "getitem ls a = Inr (ls ! nat a)" by (simp add: getitem_in_range)
  show ?case
  proof (cases "a = s")
    case True
    with "1.prems" have "command (ls ! nat a) = ''M101''" by (simp add: loop_layout_def)
    with g r show ?thesis by (subst isBeforeExtrusion_from.simps) (simp add: Let_def)
  next
    case False
    with "1.prems" have c: "command (ls ! nat a) \<noteq> ''G1''" "command (ls ! nat a) \<noteq> ''M101''"
      "command (ls ! nat a) \<noteq> ''M103''" by auto
    have "isBeforeExtrusion_from ls (a + 1) cnt = Inr (cnt > 0)"
      using "1.IH"[OF r(2) g refl] c "1.prems" False by simp
    with g r c show ?thesis by (subst isBeforeExtrusion_from.simps) (simp add: Let_def)
  qed
qed

lemma before_scan:
  "loop_layout ls s e \<Longrightarrow> 0 \<le> a \<Longrightarrow> a \<le> s \<Longrightarrow>
   \<forall>m. a \<le> m \<and> m < s \<longrightarrow> command (ls ! nat m) \<noteq> ''M101'' \<and> command (ls ! nat m) \<noteq> ''M103'' \<Longrightarrow>
   cnt > 0 \<or> (\<exists>g. a \<le> g \<and> g < s \<and> command (ls ! nat g) = ''G1'') \<Longrightarrow>
   isBeforeExtrusion_from ls a cnt = Inr True"
proof (induction ls a cnt rule: isBeforeExtrusion_from.induct)
  case (1 ls a cnt)
  from "1.prems" have r: "0 \<le> a" "a < int (length ls)" by (auto simp: loop_layout_def)
  then have g: "getitem ls a = Inr (ls ! nat a)" by (simp add: getitem_in_range)
  show ?case
  proof (cases "a = s")
    case True
    with "1.prems" have "command (ls ! nat a) = ''M101''" and "cnt > 0"
      by (auto simp: loop_layout_def)
    with g r show ?thesis by (subst isBeforeExtrusion_from.simps) (simp add: Let_def)
  next
    case False
    with "1.prems" have c: "command (ls ! nat a) \<noteq> ''M101''" "command (ls ! nat a) \<noteq> ''M103''"
      by auto
    let ?cnt = "if command (ls ! nat a) = ''G1'' then cnt + 1 else cnt"
    have ex: "?cnt > 0 \<or> (\<exists>g. a + 1 \<le> g \<and> g < s \<and> command (ls ! nat g) = ''G1'')"
    proof (cases "command (ls ! nat a) = ''G1''")
      case True then show ?thesis by simp
    next
      case ng: False
      from "1.prems"(5) show ?thesis
      proof
        assume "cnt > 0" with ng show ?thesis by simp
      next
        assume "\<exists>g. a \<le> g \<and> g < s \<and> command (ls ! nat g) = ''G1''"
        then obtain g where gg: "a \<le> g" "g < s" "command (ls ! nat g) = ''G1''" by blast
        with ng have "g \<noteq> a" by auto
        with gg have "a + 1 \<le> g \<and> g < s \<and> command (ls ! nat g) = ''G1''" by simp
        then show ?thesis by blast
      qed
    qed
    have "isBeforeExtrusion_from ls (a + 1) ?cnt = Inr True"
      using "1.IH"[OF r(2) g refl c] "1.prems"(1,2,3,4) False ex by simp
    with g r c show ?thesis by (subst isBeforeExtrusion_from.simps) (simp add: Let_def)
  qed
qed

lemma quiet_prefix:
  assumes L: "loop_layout ls s e" and a: "0 \<le> a"
    and q: "\<forall>m. a \<le> m \<and> m < s \<longrightarrow> command (ls ! nat m) \<noteq> ''M103''"
  shows "\<forall>m. a \<le> m \<and> m < s \<longrightarrow> command (ls ! nat m) \<noteq> ''M101'' \<and> command (ls ! nat m) \<noteq> ''M103''"
proof (intro allI impI conjI)
  fix m assume m: "a \<le> m \<and> m < s"
  with q show "command (ls ! nat m) \<noteq> ''M103''" by blast
  show "command (ls ! nat m) \<noteq> ''M101''"
  proof
    assume "command (ls ! nat m) = ''M101''"
    with L m a obtain m' where "m < m'" "m' < s" "command (ls ! nat m') = ''M103''"
      unfolding loop_layout_def by (metis dual_order.trans)
    with q m show False by auto
  qed
qed


lemma backward_scans:
  "getIndexBeforeNextDeactivate
     \<lparr>iterator_class = LineIteratorBackward, firstLineIndex = f, isLoop = True, lineIndex = k, lines = ls\<rparr>
     = getIndexBeforeNextDeactivate_from ls (k + 1)"
  "isBeforeExtrusion
     \<lparr>iterator_class = LineIteratorBackward, firstLineIndex = f, isLoop = True, lineIndex = k, lines = ls\<rparr>
     = isBeforeExtrusion_from ls (k + 1) 0"
  by (simp_all add: getIndexBeforeNextDeactivate_def isBeforeExtrusion_def)

lemma backward_move:
  assumes L: "loop_layout ls s e" and k: "s < k" "k < e" and f: "f \<noteq> Some k"
  shows "LineIteratorBackward_getNext_loop (cursor_at LineIteratorBackward ls k f) =
           Some (Inr (raw (ls ! nat k)),
                 cursor_at LineIteratorBackward ls (k - 1) (if f = None then Some k else f))"
proof -
  from L k have r: "0 \<le> k" "k < int (length ls)" and g: "command (ls ! nat k) = ''G1''"
    by (auto simp: loop_layout_def)
  have b: "isBeforeExtrusion_from ls (k + 1) 0 = Inr False"
    using k by (intro in_loop_not_before[OF L]) simp_all
  show ?thesis
    using f r g b
    by (subst LineIteratorBackward_getNext_loop.simps)
       (simp add: cursor_at_def Let_def getitem_in_range backward_scans)
qed


lemma backward_activate:
  assumes L: "loop_layout ls s e" and f: "f \<noteq> Some s"
  shows "LineIteratorBackward_getNext_loop (cursor_at LineIteratorBackward ls s f) =
         LineIteratorBackward_getNext_loop
           (cursor_at LineIteratorBackward ls (s - 1) (if f = None then Some s else f))"
proof -
  from L have r: "0 \<le> s" "s < int (length ls)" and g: "command (ls ! nat s) = ''M101''"
    by (auto simp: loop_layout_def)
  show ?thesis
    using f r g
    by (subst LineIteratorBackward_getNext_loop.simps)
       (simp add: cursor_at_def Let_def getitem_in_range backward_scans)
qed

lemma backward_stop:
  assumes "0 \<le> k"
  shows "LineIteratorBackward_getNext_loop (cursor_at LineIteratorBackward ls k (Some k)) =
           Some (Inl StopIteration, cursor_at LineIteratorBackward ls k (Some k))"
  using assms
  by (subst LineIteratorBackward_getNext_loop.simps) (simp add: cursor_at_def)

lemma backward_exit:
  assumes L: "loop_layout ls s e"
    and q: "\<forall>m. 0 \<le> m \<and> m < s \<longrightarrow> command (ls ! nat m) \<noteq> ''M103''"
  shows "LineIteratorBackward_getNext_loop (cursor_at LineIteratorBackward ls (- 1) f) =
           Some (Inl StopIteration, cursor_at LineIteratorBackward ls (- 1) f)"
proof -
  have "getIndexBeforeNextDeactivate_from ls 0 = Inr (e - 2)"
    using L q by (intro wrap_target[OF L]) (auto simp: loop_layout_def)
  then show ?thesis
    by (subst LineIteratorBackward_getNext_loop.simps)
       (simp add: cursor_at_def backward_scans)
qed

lemma getNext_backward:
  assumes "1 \<le> k"
  shows "getNext (cursor_at LineIteratorBackward ls k f) =
         LineIteratorBackward_getNext_loop (cursor_at LineIteratorBackward ls k f)"
  using assms by (simp add: getNext_def LineIteratorBackward_getNext_def cursor_at_def)

lemma getNext_backward_wrap:
  assumes L: "loop_layout ls s e" and k: "- 1 \<le> k" "k < 1"
    and q: "\<forall>m. k < m \<and> m < s \<longrightarrow> command (ls ! nat m) \<noteq> ''M103''"
  shows "getNext (cursor_at LineIteratorBackward ls k f) =
         LineIteratorBackward_getNext_loop (cursor_at LineIteratorBackward ls (e - 2) f)"
proof -
  have "getIndexBeforeNextDeactivate_from ls (k + 1) = Inr (e - 2)"
    using L q k by (intro wrap_target[OF L]) (auto simp: loop_layout_def)
  with k show ?thesis
    by (simp add: getNext_def LineIteratorBackward_getNext_def cursor_at_def backward_scans)
qed


lemma prefix_deactivate:
  assumes L: "loop_layout ls s e" and k: "0 \<le> k" "k < s" and i: "i \<noteq> k"
    and c: "command (ls ! nat k) = ''M103''"
    and q: "\<forall>m. k < m \<and> m < s \<longrightarrow> command (ls ! nat m) \<noteq> ''M103''"
  shows "LineIteratorBackward_getNext_loop (cursor_at LineIteratorBackward ls k (Some i)) =
         LineIteratorBackward_getNext_loop (cursor_at LineIteratorBackward ls (e - 2) (Some i))"
proof -
  from L k have r: "k < int (length ls)" by (auto simp: loop_layout_def)
  have w: "getIndexBeforeNextDeactivate_from ls (k + 1) = Inr (e - 2)"
    using L q k by (intro wrap_target[OF L]) (auto simp: loop_layout_def)
  show ?thesis
    using i k r c w
    by (subst LineIteratorBackward_getNext_loop.simps)
       (simp add: cursor_at_def Let_def getitem_in_range backward_scans)
qed

lemma prefix_before:
  assumes L: "loop_layout ls s e" and k: "0 \<le> k" "k < s" and i: "i \<noteq> k"
    and c: "command (ls ! nat k) = ''G1''"
    and q: "\<forall>m. k < m \<and> m < s \<longrightarrow> command (ls ! nat m) \<noteq> ''M103''"
    and g: "\<exists>g. k < g \<and> g < s \<and> command (ls ! nat g) = ''G1''"
  shows "LineIteratorBackward_getNext_loop (cursor_at LineIteratorBackward ls k (Some i)) =
         LineIteratorBackward_getNext_loop (cursor_at LineIteratorBackward ls (e - 2) (Some i))"
proof -
  from L k have r: "k < int (length ls)" by (auto simp: loop_layout_def)
  have w: "getIndexBeforeNextDeactivate_from ls (k + 1) = Inr (e - 2)"
    using L q k by (intro wrap_target[OF L]) (auto simp: loop_layout_def)
  have q': "\<forall>m. k + 1 \<le> m \<and> m < s \<longrightarrow> command (ls ! nat m) \<noteq> ''M101'' \<and> command (ls ! nat m) \<noteq> ''M103''"
    using q k by (intro quiet_prefix[OF L]) auto
  from g obtain g0 where "k < g0" "g0 < s" "command (ls ! nat g0) = ''G1''" by blast
  then have "k + 1 \<le> g0 \<and> g0 < s \<and> command (ls ! nat g0) = ''G1''" by simp
  then have g': "0 < (0::nat) \<or> (\<exists>g. k + 1 \<le> g \<and> g < s \<and> command (ls ! nat g) = ''G1'')"
    by blast
  have b: "isBeforeExtrusion_from ls (k + 1) 0 = Inr True"
    using k by (intro before_scan[OF L _ _ q' g']) simp_all
  show ?thesis
    using i k r c w b
    by (subst LineIteratorBackward_getNext_loop.simps)
       (simp add: cursor_at_def Let_def getitem_in_range backward_scans)
qed

lemma prefix_approach:
  assumes L: "loop_layout ls s e" and k: "0 \<le> k" "k < s" and i: "i \<noteq> k"
    and c: "command (ls ! nat k) = ''G1''"
    and q: "\<forall>m. k < m \<and> m < s \<longrightarrow> command (ls ! nat m) \<noteq> ''M103'' \<and> command (ls ! nat m) \<noteq> ''G1''"
  shows "LineIteratorBackward_getNext_loop (cursor_at LineIteratorBackward ls k (Some i)) =
         Some (Inr (raw (ls ! nat k)), cursor_at LineIteratorBackward ls (k - 1) (Some i))"
proof -
  from L k have r: "k < int (length ls)" by (auto simp: loop_layout_def)
  have q': "\<forall>m. k + 1 \<le> m \<and> m < s \<longrightarrow> command (ls ! nat m) \<noteq> ''M101'' \<and> command (ls ! nat m) \<noteq> ''M103''"
    using q k by (intro quiet_prefix[OF L]) auto
  with q have q'': "\<forall>m. k + 1 \<le> m \<and> m < s \<longrightarrow> command (ls ! nat m) \<noteq> ''G1''
      \<and> command (ls ! nat m) \<noteq> ''M101'' \<and> command (ls ! nat m) \<noteq> ''M103''"
    by auto
  have b: "isBeforeExtrusion_from ls (k + 1) 0 = Inr False"
    using approach_scan[OF L _ _ q'', of 0] k by simp
  show ?thesis
    using i k r c b
    by (subst LineIteratorBackward_getNext_loop.simps)
       (simp add: cursor_at_def Let_def getitem_in_range backward_scans)
qed

lemma prefix_other:
  assumes k: "0 \<le> k" "k < int (length ls)" and i: "i \<noteq> k"
    and c: "command (ls ! nat k) \<noteq> ''G1''" "command (ls ! nat k) \<noteq> ''M103''"
  shows "LineIteratorBackward_getNext_loop (cursor_at LineIteratorBackward ls k (Some i)) =
         LineIteratorBackward_getNext_loop (cursor_at LineIteratorBackward ls (k - 1) (Some i))"
  using i k c
  by (subst LineIteratorBackward_getNext_loop.simps)
     (simp add: cursor_at_def Let_def getitem_in_range backward_scans)


lemma prefix_after_approach:
  assumes L: "loop_layout ls s e" and i: "s \<le> i"
    and H: "first_raise_after n
              (LineIteratorBackward_getNext_loop (cursor_at LineIteratorBackward ls (e - 2) (Some i)))
            = Some (Some StopIteration)"
  shows "- 1 \<le> k \<Longrightarrow> k < s \<Longrightarrow>
         \<forall>m. k < m \<and> m < s \<longrightarrow> command (ls ! nat m) \<noteq> ''M103'' \<Longrightarrow>
         \<exists>g. k < g \<and> g < s \<and> command (ls ! nat g) = ''G1'' \<Longrightarrow>
         first_raise_after n
           (LineIteratorBackward_getNext_loop (cursor_at LineIteratorBackward ls k (Some i)))
         = Some (Some StopIteration)"
proof (induction "nat (k + 1)" arbitrary: k)
  case 0
  then have k: "k = - 1" by simp
  from 0 k have q: "\<forall>m. 0 \<le> m \<and> m < s \<longrightarrow> command (ls ! nat m) \<noteq> ''M103''" by auto
  show ?case unfolding k by (simp add: backward_exit[OF L q] first_raise_after_stop)
next
  case (Suc x)
  from Suc.hyps(2) Suc.prems have k: "0 \<le> k" "k < s" by simp_all
  from k i have ik: "i \<noteq> k" by simp
  from L k have r: "k < int (length ls)" by (auto simp: loop_layout_def)
  consider (off) "command (ls ! nat k) = ''M103''" | (move) "command (ls ! nat k) = ''G1''"
    | (other) "command (ls ! nat k) \<noteq> ''G1''" "command (ls ! nat k) \<noteq> ''M103''" by blast
  then show ?case
  proof cases
    case off
    show ?thesis unfolding prefix_deactivate[OF L k ik off Suc.prems(3)] by (rule H)
  next
    case move
    show ?thesis unfolding prefix_before[OF L k ik move Suc.prems(3,4)] by (rule H)
  next
    case other
    have x: "x = nat (k - 1 + 1)" using Suc.hyps(2) by simp
    have q: "\<forall>m. k - 1 < m \<and> m < s \<longrightarrow> command (ls ! nat m) \<noteq> ''M103''"
    proof (intro allI impI)
      fix m assume "k - 1 < m \<and> m < s"
      then consider "m = k" | "k < m \<and> m < s" by linarith
      then show "command (ls ! nat m) \<noteq> ''M103''"
        using other Suc.prems(3) by cases auto
    qed
    from Suc.prems(4) obtain g where "k < g" "g < s" "command (ls ! nat g) = ''G1''" by blast
    then have "k - 1 < g \<and> g < s \<and> command (ls ! nat g) = ''G1''" by simp
    then have g: "\<exists>g. k - 1 < g \<and> g < s \<and> command (ls ! nat g) = ''G1''" by blast
    show ?thesis
      unfolding prefix_other[OF k(1) r ik other]
      using Suc.hyps(1)[OF x _ _ q g] k by simp
  qed
qed


lemma prefix_walk:
  assumes L: "loop_layout ls s e" and i: "s \<le> i"
    and H: "first_raise_after n
              (LineIteratorBackward_getNext_loop (cursor_at LineIteratorBackward ls (e - 2) (Some i)))
            = Some (Some StopIteration)"
  shows "- 1 \<le> k \<Longrightarrow> k < s \<Longrightarrow>
         \<forall>m. k < m \<and> m < s \<longrightarrow> command (ls ! nat m) \<noteq> ''M103'' \<and> command (ls ! nat m) \<noteq> ''G1'' \<Longrightarrow>
         first_raise_after (Suc n)
           (LineIteratorBackward_getNext_loop (cursor_at LineIteratorBackward ls k (Some i)))
         = Some (Some StopIteration)"
proof (induction "nat (k + 1)" arbitrary: k)
  case 0
  then have k: "k = - 1" by simp
  from 0 k have q: "\<forall>m. 0 \<le> m \<and> m < s \<longrightarrow> command (ls ! nat m) \<noteq> ''M103''" by auto
  show ?case unfolding k by (simp add: backward_exit[OF L q] first_raise_after_stop)
next
  case (Suc x)
  from Suc.hyps(2) Suc.prems have k: "0 \<le> k" "k < s" by simp_all
  from k i have ik: "i \<noteq> k" by simp
  from L k have r: "k < int (length ls)" by (auto simp: loop_layout_def)
  from Suc.prems(3) have q3: "\<forall>m. k < m \<and> m < s \<longrightarrow> command (ls ! nat m) \<noteq> ''M103''" by blast
  note H' = first_raise_after_mono[OF H, of "Suc n"]
  consider (off) "command (ls ! nat k) = ''M103''" | (move) "command (ls ! nat k) = ''G1''"
    | (other) "command (ls ! nat k) \<noteq> ''G1''" "command (ls ! nat k) \<noteq> ''M103''" by blast
  then show ?case
  proof cases
    case off
    show ?thesis unfolding prefix_deactivate[OF L k ik off q3] using H' by simp
  next
    case move
    have q: "\<forall>m. k - 1 < m \<and> m < s \<longrightarrow> command (ls ! nat m) \<noteq> ''M103''"
    proof (intro allI impI)
      fix m assume "k - 1 < m \<and> m < s"
      then consider "m = k" | "k < m \<and> m < s" by linarith
      then show "command (ls ! nat m) \<noteq> ''M103''"
        using move q3 by cases auto
    qed
    have g: "\<exists>g. k - 1 < g \<and> g < s \<and> command (ls ! nat g) = ''G1''"
      using move k by (intro exI[of _ k]) simp
    have "first_raise_after n (getNext (cursor_at LineIteratorBackward ls (k - 1) (Some i)))
          = Some (Some StopIteration)"
    proof (cases "k - 1 < 1")
      case True
      with k have b: "- 1 \<le> k - 1" by simp
      show ?thesis unfolding getNext_backward_wrap[OF L b True q] by (rule H)
    next
      case False
      then have "1 \<le> k - 1" by simp
      then show ?thesis
        unfolding getNext_backward[OF \<open>1 \<le> k - 1\<close>]
        using prefix_after_approach[OF L i H _ _ q g] k by simp
    qed
    then show ?thesis
      unfolding prefix_approach[OF L k ik move Suc.prems(3)]
      by (simp add: first_raise_after_line)
  next
    case other
    have x: "x = nat (k - 1 + 1)" using Suc.hyps(2) by simp
    have q: "\<forall>m. k - 1 < m \<and> m < s \<longrightarrow> command (ls ! nat m) \<noteq> ''M103'' \<and> command (ls ! nat m) \<noteq> ''G1''"
    proof (intro allI impI)
      fix m assume "k - 1 < m \<and> m < s"
      then consider "m = k" | "k < m \<and> m < s" by linarith
      then show "command (ls ! nat m) \<noteq> ''M103'' \<and> command (ls ! nat m) \<noteq> ''G1''"
        using other Suc.prems(3) by cases auto
    qed
    show ?thesis
      unfolding prefix_other[OF k(1) r ik other]
      using Suc.hyps(1)[OF x _ _ q] k by simp
  qed
qed

lemma backward_after_wrap:
  assumes L: "loop_layout ls s e" and i: "s \<le> i"
  shows "i \<le> k \<Longrightarrow> k \<le> e - 2 \<Longrightarrow>
         first_raise_after (nat (k - i))
           (LineIteratorBackward_getNext_loop (cursor_at LineIteratorBackward ls k (Some i)))
         = Some (Some StopIteration)"
proof (induction "nat (k - i)" arbitrary: k)
  case 0
  then have k: "k = i" by simp
  from L have "0 < s" by (simp add: loop_layout_def)
  with i have "0 \<le> i" by linarith
  then show ?case unfolding k by (simp add: backward_stop first_raise_after_stop)
next
  case (Suc n)
  from Suc.hyps(2) Suc.prems i have k: "s < k" "k < e" "Some i \<noteq> Some k" by auto
  from Suc.hyps(2) have n: "n = nat (k - 1 - i)" by linarith
  from L have "0 < s" by (simp add: loop_layout_def)
  with i Suc.hyps(2) have one: "1 \<le> k - 1" by linarith
  have "first_raise_after (Suc n)
           (LineIteratorBackward_getNext_loop (cursor_at LineIteratorBackward ls k (Some i)))
      = first_raise_after n
           (LineIteratorBackward_getNext_loop (cursor_at LineIteratorBackward ls (k - 1) (Some i)))"
    by (simp add: backward_move[OF L k] first_raise_after_line getNext_backward[OF one])
  also have "\<dots> = Some (Some StopIteration)"
    using Suc.hyps(1)[OF n] Suc.hyps(2) Suc.prems unfolding n by simp
  finally show ?case using Suc.hyps(2) by simp
qed

lemma backward_before_wrap:
  assumes L: "loop_layout ls s e" and i: "i \<le> e - 2"
  shows "s \<le> k \<Longrightarrow> k \<le> i \<Longrightarrow>
         first_raise_after (nat (k - s) + 1 + nat (e - 2 - i))
           (LineIteratorBackward_getNext_loop
              (cursor_at LineIteratorBackward ls k (if k = i then None else Some i)))
         = Some (Some StopIteration)"
proof (induction "nat (k - s)" arbitrary: k)
  case 0
  then have k: "k = s" by simp
  with 0 have si: "s \<le> i" by simp
  have f: "(if s = i then None else Some i) \<noteq> Some s" by simp
  have f': "(if (if s = i then None else Some i) = None then Some s
             else (if s = i then None else Some i)) = Some i" by simp
  have H: "first_raise_after (nat (e - 2 - i))
              (LineIteratorBackward_getNext_loop (cursor_at LineIteratorBackward ls (e - 2) (Some i)))
            = Some (Some StopIteration)"
    using backward_after_wrap[OF L si i order_refl] by simp
  from L have "0 < s" by (simp add: loop_layout_def)
  then have b: "- 1 \<le> s - 1" "s - 1 < s" by linarith+
  have q: "\<forall>m. s - 1 < m \<and> m < s \<longrightarrow> command (ls ! nat m) \<noteq> ''M103'' \<and> command (ls ! nat m) \<noteq> ''G1''"
    by auto
  show ?case
    unfolding k backward_activate[OF L f] f'
    using prefix_walk[OF L si H b q] by simp
next
  case (Suc n)
  from Suc.hyps(2) Suc.prems i have k: "s < k" "k < e" by auto
  have f: "(if k = i then None else Some i) \<noteq> Some k" by simp
  have f': "(if (if k = i then None else Some i) = None then Some k
             else (if k = i then None else Some i)) = Some i" by simp
  from Suc.hyps(2) have n: "n = nat (k - 1 - s)" by linarith
  from L have "0 < s" by (simp add: loop_layout_def)
  with k have one: "1 \<le> k - 1" by linarith
  from Suc.prems have ne: "k - 1 \<noteq> i" by simp
  have "first_raise_after (Suc n + 1 + nat (e - 2 - i))
           (LineIteratorBackward_getNext_loop
              (cursor_at LineIteratorBackward ls k (if k = i then None else Some i)))
      = first_raise_after (n + 1 + nat (e - 2 - i))
           (LineIteratorBackward_getNext_loop (cursor_at LineIteratorBackward ls (k - 1) (Some i)))"
    unfolding backward_move[OF L k f] f'
    by (simp add: first_raise_after_line getNext_backward[OF one])
  also have "\<dots> = Some (Some StopIteration)"
    using Suc.hyps(1)[OF n] k Suc.prems ne unfolding n by simp
  finally show ?case using Suc.hyps(2)[symmetric] by simp
qed

lemma backward_exhausts:
  assumes L: "loop_layout ls s e" and i: "s \<le> i" "i \<le> e - 2"
  shows "first_raise_within (nat (e - s)) (cursor_at LineIteratorBackward ls i None)
         = Some (Some StopIteration)"
proof -
  from i have N: "nat (e - s) = Suc (nat (i - s) + 1 + nat (e - 2 - i))" by linarith
  from L have "0 < s" by (simp add: loop_layout_def)
  with i have one: "1 \<le> i" by linarith
  show ?thesis
    unfolding N first_raise_within_Suc getNext_backward[OF one]
    using backward_before_wrap[OF L i(2) i(1) order_refl] by simp
qed

lemma square_closed_loop: "closed_loop square_layer 2 4"
  by (simp add: closed_loop_def square_layer_def gline_def upt_conv_Cons)

text \<open>
  In a layer with a closed loop of \<open>N\<close> linear moves, an iterator created with the loop flag set
  and started inside the loop raises \<open>StopIteration\<close> within \<open>N + 1\<close> calls of \<open>getNext\<close>, each
  call returning: a forward iterator started after the \<open>M101\<close> line, up to and including the
  \<open>M103\<close> line; a backward iterator started from the \<open>M101\<close> line up to two lines before the
  \<open>M103\<close> line.
\<close>

lemma loop_traversal_exhausts:
  assumes "closed_loop ls s N"
  shows "(\<forall>j. s < j \<and> j \<le> s + N + 1 \<longrightarrow>
            first_raise_within (N + 1) (LineIterator_init LineIteratorForward True (int j) ls)
            = Some (Some StopIteration))
       \<and> (\<forall>i. s \<le> i \<and> i + 2 \<le> s + N + 1 \<longrightarrow>
            first_raise_within (N + 1) (LineIterator_init LineIteratorBackward True (int i) ls)
            = Some (Some StopIteration))"
proof -
  note L = closed_loop_layout[OF assms]
  have n: "nat (int (s + N + 1) - int s) = N + 1" by simp
  have c: "\<And>k i. LineIterator_init k True i ls = cursor_at k ls i None"
    by (simp add: LineIterator_init_def cursor_at_def)
  show ?thesis
  proof (intro conjI allI impI)
    fix j assume "s < j \<and> j \<le> s + N + 1"
    then have "int s < int j" "int j \<le> int (s + N + 1)" by simp_all
    from forward_exhausts[OF L this]
    show "first_raise_within (N + 1) (LineIterator_init LineIteratorForward True (int j) ls)
            = Some (Some StopIteration)"
      unfolding n c .
  next
    fix i assume "s \<le> i \<and> i + 2 \<le> s + N + 1"
    then have "int s \<le> int i" "int i \<le> int (s + N + 1) - 2" by simp_all
    from backward_exhausts[OF L this]
    show "first_raise_within (N + 1) (LineIterator_init LineIteratorBackward True (int i) ls)
            = Some (Some StopIteration)"
      unfolding n c .
  qed
qed

lemma loop_traversal_exhausts_square:
  "first_raise_within (4 + 1) (LineIterator_init LineIteratorForward True (int 5) square_layer)
     = Some (Some StopIteration)
   \<and> first_raise_within (4 + 1) (LineIterator_init LineIteratorBackward True (int 3) square_layer)
     = Some (Some StopIteration)"
proof -
  note t = loop_traversal_exhausts[OF square_closed_loop]
  have f: "first_raise_within (4 + 1) (LineIterator_init LineIteratorForward True (int 5) square_layer)
     = Some (Some StopIteration)"
    by (rule mp[OF t[THEN conjunct1, THEN spec[of _ 5]]]) simp
  have b: "first_raise_within (4 + 1) (LineIterator_init LineIteratorBackward True (int 3) square_layer)
     = Some (Some StopIteration)"
    by (rule mp[OF t[THEN conjunct2, THEN spec[of _ 3]]]) simp
  from f b show ?thesis by blast
qed

section \<open>A forward iterator started on the \<open>M101\<close> line\<close>

lemma square_activate_next:
  "getNext (LineIterator_init LineIteratorForward True 2 square_layer) =
     Some (Inr ''G1 X1 Y0'',
           (LineIterator_init LineIteratorForward True 2 square_layer)
             \<lparr>firstLineIndex := Some 2, lineIndex := 4\<rparr>)"
  "getNext ((LineIterator_init LineIteratorForward True 2 square_layer)
             \<lparr>firstLineIndex := Some 2, lineIndex := 4\<rparr>) =
     Some (Inr ''G1 X1 Y1'',
           (LineIterator_init LineIteratorForward True 2 square_layer)
             \<lparr>firstLineIndex := Some 2, lineIndex := 5\<rparr>)"
  "getNext ((LineIterator_init LineIteratorForward True 2 square_layer)
             \<lparr>firstLineIndex := Some 2, lineIndex := 5\<rparr>) =
     Some (Inr ''G1 X0 Y1'',
           (LineIterator_init LineIteratorForward True 2 square_layer)
             \<lparr>firstLineIndex := Some 2, lineIndex := 6\<rparr>)"
  "getNext ((LineIterator_init LineIteratorForward True 2 square_layer)
             \<lparr>firstLineIndex := Some 2, lineIndex := 6\<rparr>) =
     Some (Inr ''G1 X0 Y0'',
           (LineIterator_init LineIteratorForward True 2 square_layer)
             \<lparr>firstLineIndex := Some 2, lineIndex := 7\<rparr>)"
  "getNext ((LineIterator_init LineIteratorForward True 2 square_layer)
             \<lparr>firstLineIndex := Some 2, lineIndex := 7\<rparr>) =
     Some (Inr ''G1 X1 Y0'',
           (LineIterator_init LineIteratorForward True 2 square_layer)
             \<lparr>firstLineIndex := Some 2, lineIndex := 4\<rparr>)"
  by (simp_all add: getNext_def LineIterator_init_def square_layer_def gline_def
      LineIteratorForward_getNext.simps getitem_def getIndexJustAfterActivate_def)

lemma square_activate_cycle:
  assumes "c = LineIterator_init LineIteratorForward True 2 square_layer
           \<or> (\<exists>k \<in> {4, 5, 6, 7}. c = (LineIterator_init LineIteratorForward True 2 square_layer)
                       \<lparr>firstLineIndex := Some 2, lineIndex := k\<rparr>)"
  shows "first_raise_within n c = Some None"
  using assms
proof (induction n arbitrary: c)
  case 0
  then show ?case by simp
next
  case (Suc n)
  let ?c = "LineIterator_init LineIteratorForward True 2 square_layer"
  from Suc.prems consider "c = ?c" | "c = ?c\<lparr>firstLineIndex := Some 2, lineIndex := 4\<rparr>"
    | "c = ?c\<lparr>firstLineIndex := Some 2, lineIndex := 5\<rparr>"
    | "c = ?c\<lparr>firstLineIndex := Some 2, lineIndex := 6\<rparr>"
    | "c = ?c\<lparr>firstLineIndex := Some 2, lineIndex := 7\<rparr>" by auto
  then show ?case
  proof cases
    case 1
    then show ?thesis by (simp add: square_activate_next(1) Suc.IH)
  next
    case 2
    then show ?thesis by (simp add: square_activate_next(2) Suc.IH)
  next
    case 3
    then show ?thesis by (simp add: square_activate_next(3) Suc.IH)
  next
    case 4
    then show ?thesis by (simp add: square_activate_next(4) Suc.IH)
  next
    case 5
    then show ?thesis by (simp add: square_activate_next(5) Suc.IH)
  qed
qed

lemma zero_next_first:
  "getNext (LineIterator_init LineIteratorForward True 4 zero_length_program) =
     Some (Inr ''G1 X0 Y0'',
           (LineIterator_init LineIteratorForward True 4 zero_length_program)
             \<lparr>firstLineIndex := Some 4, lineIndex := 6\<rparr>)"
  by (simp add: getNext_def LineIterator_init_def zero_length_program_def gline_def
      LineIteratorForward_getNext.simps getitem_def getIndexJustAfterActivate_def)

lemma zero_next_second:
  "getNext ((LineIterator_init LineIteratorForward True 4 zero_length_program)
             \<lparr>firstLineIndex := Some 4, lineIndex := 6\<rparr>) =
     Some (Inr ''G1 X0 Y0'',
           (LineIterator_init LineIteratorForward True 4 zero_length_program)
             \<lparr>firstLineIndex := Some 4, lineIndex := 7\<rparr>)"
  by (simp add: getNext_def LineIterator_init_def zero_length_program_def gline_def
      LineIteratorForward_getNext.simps getitem_def getIndexJustAfterActivate_def)

lemma zero_next_wrap:
  "getNext ((LineIterator_init LineIteratorForward True 4 zero_length_program)
             \<lparr>firstLineIndex := Some 4, lineIndex := 7\<rparr>) =
     Some (Inr ''G1 X0 Y0'',
           (LineIterator_init LineIteratorForward True 4 zero_length_program)
             \<lparr>firstLineIndex := Some 4, lineIndex := 6\<rparr>)"
  by (simp add: getNext_def LineIterator_init_def zero_length_program_def gline_def
      LineIteratorForward_getNext.simps getitem_def getIndexJustAfterActivate_def)

lemma zero_point:
  "oldLocation s = Some v \<Longrightarrow>
   getLocationFromSplitLine float_decimal (oldLocation s)
     (getSplitLineBeforeBracketSemicolon ''G1 X0 Y0'') = Inr (Vector3 0 0 (z_of v))"
  by (simp add: parse_defs)

lemma zero_split: "getSplitLineBeforeBracketSemicolon ''G1 X0 Y0'' = [''G1'', ''X0'', ''Y0'']"
  by (simp add: getSplitLineBeforeBracketSemicolon_def str_find_def str_split_def isspace_def)

lemma zero_loop_never_returns:
  assumes run: "getRelativeStretch_loop fo s loc it lastp old pt tot = Some res"
  shows "fo = float_decimal \<longrightarrow> (\<exists>v. oldLocation s = Some v) \<longrightarrow>
         (\<exists>D. 0 < D \<and> stretchFromDistance s = Some D) \<longrightarrow>
         loc = 0 \<longrightarrow> lastp = 0 \<longrightarrow> old = 0 \<longrightarrow> pt = 0 \<longrightarrow> tot = 0 \<longrightarrow>
         it \<in> {LineIterator_init LineIteratorForward True 4 zero_length_program,
                (LineIterator_init LineIteratorForward True 4 zero_length_program)
                   \<lparr>firstLineIndex := Some 4, lineIndex := 6\<rparr>,
                (LineIterator_init LineIteratorForward True 4 zero_length_program)
                   \<lparr>firstLineIndex := Some 4, lineIndex := 7\<rparr>} \<longrightarrow> False"
proof (rule getRelativeStretch_loop.raw_induct[where
        P = "\<lambda>fo s loc it lastp old pt tot res.
         fo = float_decimal \<longrightarrow> (\<exists>v. oldLocation s = Some v) \<longrightarrow>
         (\<exists>D. 0 < D \<and> stretchFromDistance s = Some D) \<longrightarrow>
         loc = 0 \<longrightarrow> lastp = 0 \<longrightarrow> old = 0 \<longrightarrow> pt = 0 \<longrightarrow> tot = 0 \<longrightarrow>
         it \<in> {LineIterator_init LineIteratorForward True 4 zero_length_program,
                (LineIterator_init LineIteratorForward True 4 zero_length_program)
                   \<lparr>firstLineIndex := Some 4, lineIndex := 6\<rparr>,
                (LineIterator_init LineIteratorForward True 4 zero_length_program)
                   \<lparr>firstLineIndex := Some 4, lineIndex := 7\<rparr>} \<longrightarrow> False", OF _ run],
       goal_cases)
  case (1 rec fo s loc it lastp old pt tot res)
  let ?a = "LineIterator_init LineIteratorForward True 4 zero_length_program"
  let ?b = "?a\<lparr>firstLineIndex := Some 4, lineIndex := 6\<rparr>"
  let ?c = "?a\<lparr>firstLineIndex := Some 4, lineIndex := 7\<rparr>"
  show ?case
  proof (intro impI)
    assume fo: "fo = float_decimal" and ov: "\<exists>v. oldLocation s = Some v"
      and dd: "\<exists>D. 0 < D \<and> stretchFromDistance s = Some D"
      and z: "loc = 0" "lastp = 0" "old = 0" "pt = 0" "tot = 0"
      and it: "it \<in> {?a, ?b, ?c}"
    from ov obtain v where v: "oldLocation s = Some v" by blast
    from dd obtain D where D: "0 < D" "stretchFromDistance s = Some D" by blast
    have d0: "dropAxis (Vector3 0 0 (z_of v)) = 0" by (simp add: dropAxis_def complex_eq_iff)
    have step: "\<And>i i'. getNext i = Some (Inr ''G1 X0 Y0'', i') \<Longrightarrow> it = i \<Longrightarrow>
                 rec float_decimal s 0 i' 0 0 0 0 = Some res"
      using 1(2) D unfolding fo z
      by (simp add: zero_split zero_point[OF v, unfolded zero_split] d0 Let_def)
    from it consider "it = ?a" | "it = ?b" | "it = ?c" by blast
    then show False
    proof cases
      case 1
      from step[OF zero_next_first 1] have "rec float_decimal s 0 ?b 0 0 0 0 = Some res" .
      from \<open>\<And>s loc it lastp old pt tot b y. rec s loc it lastp old pt tot b = Some y \<Longrightarrow> _\<close>[OF this]
      show False using v D by blast
    next
      case 2
      from step[OF zero_next_second 2] have "rec float_decimal s 0 ?c 0 0 0 0 = Some res" .
      from \<open>\<And>s loc it lastp old pt tot b y. rec s loc it lastp old pt tot b = Some y \<Longrightarrow> _\<close>[OF this]
      show False using v D by blast
    next
      case 3
      from step[OF zero_next_wrap 3] have "rec float_decimal s 0 ?b 0 0 0 0 = Some res" .
      from \<open>\<And>s loc it lastp old pt tot b y. rec s loc it lastp old pt tot b = Some y \<Longrightarrow> _\<close>[OF this]
      show False using v D by blast
    qed
  qed
qed


lemma zero_loop_diverges:
  assumes "oldLocation s \<noteq> None"
    and "case stretchFromDistance s of None \<Rightarrow> False | Some D \<Rightarrow> 0 < D"
  shows "getRelativeStretch float_decimal s 0
           (LineIterator_init LineIteratorForward True 4 zero_length_program) = None"
proof (cases "getRelativeStretch_loop float_decimal s 0
           (LineIterator_init LineIteratorForward True 4 zero_length_program) 0 0 0 0")
  case None
  then show ?thesis by (simp add: getRelativeStretch_def)
next
  case (Some res)
  from assms obtain v D where "oldLocation s = Some v" "stretchFromDistance s = Some D" "0 < D"
    by (auto split: option.splits)
  with zero_loop_never_returns[OF Some] show ?thesis by blast
qed

lemma zero_length_program_diverges:
  "filter_gcode float_decimal (StretchFilter_init StretchRepository_init) [zero_length_program] = None"
proof -
  have d0: "dropAxis (Vector3 0 0 0) = 0" by (simp add: dropAxis_def complex_eq_iff)
  show ?thesis
    by (simp add: filter_defs parse_defs zero_length_program_def
        getStretchedLineFromIndexLocation_def d0 Let_def
        zero_loop_diverges[unfolded zero_length_program_def gline_def])
qed

text \<open>
  C4.  For the approach move just before an \<open>M101\<close>, \<open>getStretchedLine\<close> builds the forward
  iterator at \<open>line_number + 1\<close>, the index of the \<open>M101\<close> line, with the loop flag of the
  filter.  In the layer of the square (a closed loop of 4 linear moves) that iterator starts at
  index 2: its first index is 2, the wrap at \<open>M103\<close> lands on index 3, just after the \<open>M101\<close>,
  and index 2 is never met again, so every call of \<open>getNext\<close>, however many are made, returns a
  line and none raises \<open>StopIteration\<close>.  On a loop of length zero the walk of
  \<open>getRelativeStretch\<close> with that iterator never reaches the lookahead distance: the filter does
  not return on the program \<open>zero_length_program\<close>.
\<close>

theorem forward_from_activate_never_exhausts:
  "first_raise_within n (LineIterator_init LineIteratorForward True 2 square_layer) = Some None
   \<and> filter_gcode float_decimal (StretchFilter_init StretchRepository_init) [zero_length_program]
       = None"
proof
  show "first_raise_within n (LineIterator_init LineIteratorForward True 2 square_layer) = Some None"
    by (rule square_activate_cycle) simp
  show "filter_gcode float_decimal (StretchFilter_init StretchRepository_init) [zero_length_program]
       = None"
    by (rule zero_length_program_diverges)
qed

end
